theory Spec2Isabelle
  imports Main "HOL-Library.AList"
begin

section \<open>Python values and strings\<close>

text \<open>
  The pipeline of \<^verbatim>\<open>process.py\<close> handles text only: manifest fields, the string
  fields of the caption dictionaries that the caption parser returns, and paths.
  A dictionary value is a string or \<^verbatim>\<open>None\<close> (the parser sets
  \<^verbatim>\<open>graphic_ref\<close> to \<^verbatim>\<open>None\<close> when a figure has no graphic).
  Strings are byte strings; \<^verbatim>\<open>lower\<close> and \<^verbatim>\<open>strip\<close> are modelled on ASCII.
\<close>

datatype pyval = PyNone | PyStr string

text \<open>Truth value of an object, as \<^verbatim>\<open>not x\<close> and \<^verbatim>\<open>x or y\<close> read it.\<close>

fun truthy :: "pyval \<Rightarrow> bool" where
  "truthy PyNone = False"
| "truthy (PyStr s) = (s \<noteq> [])"

text \<open>\<^verbatim>\<open>str(x)\<close>, also what an f-string prints.\<close>

fun py_str :: "pyval \<Rightarrow> string" where
  "py_str PyNone = ''None''"
| "py_str (PyStr s) = s"

text \<open>\<^verbatim>\<open>x or y\<close>.\<close>

definition py_or :: "pyval \<Rightarrow> pyval \<Rightarrow> pyval" where
  "py_or x y = (if truthy x then x else y)"

text \<open>A dictionary with string keys, in insertion order; \<^verbatim>\<open>d.get(k, default)\<close>.\<close>

type_synonym pydict = "(string \<times> pyval) list"

definition dict_get :: "pydict \<Rightarrow> string \<Rightarrow> pyval \<Rightarrow> pyval" where
  "dict_get d k dflt = (case map_of d k of None \<Rightarrow> dflt | Some v \<Rightarrow> v)"

definition lower_char :: "char \<Rightarrow> char" where
  "lower_char c =
     (case map_of (zip ''ABCDEFGHIJKLMNOPQRSTUVWXYZ'' ''abcdefghijklmnopqrstuvwxyz'') c of
        None \<Rightarrow> c
      | Some d \<Rightarrow> d)"

definition lower :: "string \<Rightarrow> string" where
  "lower s = map lower_char s"

text \<open>\<^verbatim>\<open>s.endswith(e)\<close> and \<^verbatim>\<open>s.startswith(p)\<close>.\<close>

definition endswith :: "string \<Rightarrow> string \<Rightarrow> bool" where
  "endswith s e = (length e \<le> length s \<and> drop (length s - length e) s = e)"

definition startswith :: "string \<Rightarrow> string \<Rightarrow> bool" where
  "startswith s p = (take (length p) s = p)"

text \<open>\<^verbatim>\<open>sub in s\<close> on strings: \<open>sub\<close> occurs in \<open>s\<close> as a contiguous block.\<close>

fun str_in :: "string \<Rightarrow> string \<Rightarrow> bool" where
  "str_in sub [] = (sub = [])"
| "str_in sub (c # cs) = (startswith (c # cs) sub \<or> str_in sub cs)"

text \<open>\<^verbatim>\<open>s.split(sep)\<close> for a one-character separator: never the empty list.\<close>

fun split :: "char \<Rightarrow> string \<Rightarrow> string list" where
  "split sep [] = [[]]"
| "split sep (c # cs) =
     (if c = sep then [] # split sep cs
      else (case split sep cs of
              [] \<Rightarrow> [[c]]
            | w # ws \<Rightarrow> (c # w) # ws))"

text \<open>\<^verbatim>\<open>sep.join(parts)\<close>.\<close>

fun join :: "string \<Rightarrow> string list \<Rightarrow> string" where
  "join sep [] = []"
| "join sep [p] = p"
| "join sep (p # q # ps) = p @ sep @ join sep (q # ps)"

text \<open>The ASCII characters that \<^verbatim>\<open>str.strip()\<close> removes.\<close>

definition is_space :: "char \<Rightarrow> bool" where
  "is_space c = (c \<in> set [CHR '' '', CHR 0x09, CHR 0x0A, CHR 0x0B, CHR 0x0C, CHR 0x0D,
                           CHR 0x1C, CHR 0x1D, CHR 0x1E, CHR 0x1F])"

definition strip :: "string \<Rightarrow> string" where
  "strip s = rev (dropWhile is_space (rev (dropWhile is_space s)))"

text \<open>\<^verbatim>\<open>s.rstrip("\n")\<close>.\<close>

definition rstrip_newline :: "string \<Rightarrow> string" where
  "rstrip_newline s = rev (dropWhile (\<lambda>c. c = CHR 0x0A) (rev s))"

text \<open>\<^verbatim>\<open>s.rfind(c)\<close>: the index of the last occurrence, \<open>-1\<close> when there is none.\<close>

fun rfind :: "char \<Rightarrow> string \<Rightarrow> int" where
  "rfind c [] = - 1"
| "rfind c (x # xs) =
     (let r = rfind c xs in if 0 \<le> r then r + 1 else if x = c then 0 else - 1)"

section \<open>Paths\<close>

text \<open>
  \<^verbatim>\<open>pathlib.Path\<close> on POSIX: a root (\<^verbatim>\<open>""\<close>, \<^verbatim>\<open>"/"\<close> or \<^verbatim>\<open>"//"\<close>) and the
  list of components, with empty and \<^verbatim>\<open>"."\<close> components dropped when the
  string is parsed.
\<close>

record path =
  root :: string
  parts :: "string list"

definition splitroot :: "string \<Rightarrow> string" where
  "splitroot s =
     (if take 1 s \<noteq> ''/'' then ''''
      else if take 1 (drop 1 s) \<noteq> ''/'' \<or> take 1 (drop 2 s) = ''/'' then ''/''
      else ''//'')"

definition Path :: "string \<Rightarrow> path" where
  "Path s = \<lparr>root = splitroot s,
            parts = filter (\<lambda>x. x \<noteq> [] \<and> x \<noteq> ''.'') (split CHR ''/'' s)\<rparr>"

text \<open>\<^verbatim>\<open>p / q\<close>: an absolute right operand replaces the left one.\<close>

definition joinpath :: "path \<Rightarrow> path \<Rightarrow> path" where
  "joinpath p q =
     (if root q \<noteq> [] then q else \<lparr>root = root p, parts = parts p @ parts q\<rparr>)"

definition name :: "path \<Rightarrow> string" where
  "name p = (if parts p = [] then [] else last (parts p))"

definition suffix :: "path \<Rightarrow> string" where
  "suffix p =
     (let n = name p; i = rfind CHR ''.'' n
      in if 0 < i \<and> i < int (length n) - 1 then drop (nat i) n else [])"

definition stem :: "path \<Rightarrow> string" where
  "stem p =
     (let n = name p; i = rfind CHR ''.'' n
      in if 0 < i \<and> i < int (length n) - 1 then take (nat i) n else n)"

text \<open>
  \<^verbatim>\<open>p.with_suffix(sfx)\<close> for a valid suffix such as \<^verbatim>\<open>".jpg"\<close>; a path with an
  empty name raises \<^verbatim>\<open>ValueError\<close> (\<open>None\<close>).
\<close>

definition with_suffix :: "path \<Rightarrow> string \<Rightarrow> path option" where
  "with_suffix p sfx =
     (let n = name p
      in if n = [] then None
         else let old = suffix p;
                  n' = (if old = [] then n @ sfx
                        else take (length n - length old) n @ sfx)
              in Some (p\<lparr>parts := butlast (parts p) @ [n']\<rparr>))"

text \<open>
  \<^verbatim>\<open>p.relative_to(q)\<close>: \<open>q\<close> must be \<open>p\<close> or one of its ancestors, otherwise
  \<^verbatim>\<open>ValueError\<close> (\<open>None\<close>).
\<close>

definition relative_to :: "path \<Rightarrow> path \<Rightarrow> path option" where
  "relative_to p q =
     (if root p = root q \<and> take (length (parts q)) (parts p) = parts q
      then Some \<lparr>root = [], parts = drop (length (parts q)) (parts p)\<rparr>
      else None)"

text \<open>\<^verbatim>\<open>p.as_posix()\<close>, which is \<^verbatim>\<open>str(p)\<close> on POSIX.\<close>

definition as_posix :: "path \<Rightarrow> string" where
  "as_posix p =
     (let s = root p @ join ''/'' (parts p) in if s = [] then ''.'' else s)"

section \<open>The outside world\<close>

text \<open>
  What the pipeline reads from outside is a parameter of the model: the two HTTP
  endpoints, the caption parser (\<^verbatim>\<open>pubmed_parser\<close>), and the image codec (PIL).
\<close>

type_synonym bytes = string

datatype exn =
  HTTPError | ReadError | XMLSyntaxError | AttributeError | RuntimeError | ValueError
| OtherError

record tar_member =
  member_name :: string
  isfile :: bool
  content :: bytes

text \<open>A downloaded body: \<^verbatim>\<open>tarfile.open(path, mode="r:gz")\<close> reads it or raises.\<close>

datatype tarball = NotATar | TarGz "tar_member list"

text \<open>
  The answer to \<^verbatim>\<open>requests.head\<close>: the call raises, or the headers have no
  \<^verbatim>\<open>Content-Length\<close>, or one that \<^verbatim>\<open>int\<close> rejects, or a number.
\<close>

datatype head_result = HeadRaises | HeadNoLength | HeadBadLength | HeadLength int

text \<open>An image as PIL holds it: its mode (\<^verbatim>\<open>"RGB"\<close>, \<^verbatim>\<open>"L"\<close>, \<^verbatim>\<open>"RGBA"\<close>, ...) and its data.\<close>

record pil_image =
  mode :: string
  pixels :: bytes

record env =
  http_head :: "string \<Rightarrow> head_result"
  http_get :: "string \<Rightarrow> exn + tarball"
  parse_pubmed_caption :: "bytes \<Rightarrow> exn + pydict list option"
  image_open :: "bytes \<Rightarrow> pil_image option"
  can_save :: "string \<Rightarrow> pil_image \<Rightarrow> bool"

datatype request = Head string | Get string

text \<open>
  A line of the output file: a JSON object, or anything that makes
  \<^verbatim>\<open>json.loads(line)\<close> or \<^verbatim>\<open>obj.get\<close> raise. \<^verbatim>\<open>json.dumps\<close> of a record is the
  object itself.
\<close>

datatype jsonl_line = Garbage | Obj pydict

text \<open>
  The files the run works on: the output index (absent before the first run) and the
  image tree, a stored file being the image it was encoded from.
\<close>

record filesystem =
  jsonl_file :: "jsonl_line list option"
  image_files :: "string \<rightharpoonup> pil_image"

section \<open>Helpers of \<^verbatim>\<open>process.py\<close>\<close>

definition PRIMARY_BASE :: string where
  "PRIMARY_BASE = ''https://pmc-oa-opendata.s3.amazonaws.com/''"

definition FALLBACK_BASE :: string where
  "FALLBACK_BASE = ''https://ftp.ncbi.nlm.nih.gov/pub/pmc/''"

definition stream_download :: "env \<Rightarrow> string \<Rightarrow> request list \<Rightarrow> (exn + tarball) \<times> request list" where
  "stream_download w url log = (http_get w url, log @ [Get url])"

definition response_size :: "env \<Rightarrow> string \<Rightarrow> request list \<Rightarrow> int option \<times> request list" where
  "response_size w url log =
     (case http_head w url of
        HeadLength n \<Rightarrow> (Some n, log @ [Head url])
      | _ \<Rightarrow> (None, log @ [Head url]))"

definition safe_open_tar :: "tarball \<Rightarrow> exn + tar_member list" where
  "safe_open_tar t = (case t of NotATar \<Rightarrow> Inl ReadError | TarGz ms \<Rightarrow> Inr ms)"

definition members_by_ext :: "tar_member list \<Rightarrow> string list \<Rightarrow> tar_member list" where
  "members_by_ext tar exts =
     (let lowexts = map lower exts
      in filter (\<lambda>m. list_ex (endswith (lower (member_name m))) lowexts) tar)"

definition extract_member_to_bytes :: "tar_member \<Rightarrow> bytes" where
  "extract_member_to_bytes m = (if isfile m then content m else [])"

definition convert :: "pil_image \<Rightarrow> string \<Rightarrow> pil_image" where
  "convert im m = im\<lparr>mode := m\<rparr>"

definition ensure_jpeg_and_save ::
  "env \<Rightarrow> bytes \<Rightarrow> path \<Rightarrow> (string \<rightharpoonup> pil_image) \<Rightarrow> exn + path \<times> (string \<rightharpoonup> pil_image)"
where
  "ensure_jpeg_and_save w img_bytes out_path files =
     (case image_open w img_bytes of
        None \<Rightarrow> Inl OtherError
      | Some im0 \<Rightarrow>
          let im = (if mode im0 \<noteq> ''RGB'' \<and> mode im0 \<noteq> ''L'' then convert im0 ''RGB''
                    else if mode im0 = ''L'' then convert im0 ''RGB''
                    else im0)
          in (case (if lower (suffix out_path) \<noteq> ''.jpg'' then with_suffix out_path ''.jpg''
                    else Some out_path) of
                None \<Rightarrow> Inl ValueError
              | Some out_path' \<Rightarrow>
                  if can_save w (as_posix out_path') im
                  then Inr (out_path', files(as_posix out_path' \<mapsto> im))
                  else Inl OtherError))"

definition try_download_with_fallback ::
  "env \<Rightarrow> string \<Rightarrow> string \<Rightarrow> request list \<Rightarrow> (exn + tarball) \<times> request list"
where
  "try_download_with_fallback w rel_path file_extension log =
     (let rel = (if endswith rel_path file_extension then rel_path
                 else rel_path @ file_extension);
          s3_url = PRIMARY_BASE @ rel
      in (case stream_download w s3_url log of
            (Inr body, log1) \<Rightarrow> (Inr body, log1)
          | (Inl e1, log1) \<Rightarrow>
              let ftp_url = FALLBACK_BASE @ rel
              in (case stream_download w ftp_url log1 of
                    (Inr body, log2) \<Rightarrow> (Inr body, log2)
                  | (Inl e2, log2) \<Rightarrow> (Inl RuntimeError, log2))))"

section \<open>The streaming builder\<close>

text \<open>
  The parameters of \<^verbatim>\<open>build_pubmed_image_caption_dataset_streaming\<close> (its second
  definition in \<^verbatim>\<open>process.py\<close>, the one in force); the manifest and the output
  file are passed by content.
\<close>

record config =
  images_out_dir :: path
  subset_size :: "int option"
  file_extension :: string
  max_filesize_mb :: "int option"
  resume :: bool
  use_dual_base :: bool

record entry =
  e_path :: string
  e_title :: string
  e_pmcid :: string
  e_pmid :: string
  e_code :: string

text \<open>What the run holds while it works; \<open>jf\<close> is the content of the open output file.\<close>

record state =
  existing_pairs :: "pyval set"
  jf :: "jsonl_line list"
  images :: "string \<rightharpoonup> pil_image"
  n_written :: nat
  n_skipped :: nat
  net_log :: "request list"

subsection \<open>Resume: the pair ids already in the output file\<close>

definition add_existing_pair :: "pyval set \<Rightarrow> jsonl_line \<Rightarrow> pyval set" where
  "add_existing_pair pairs line =
     (case line of
        Garbage \<Rightarrow> pairs
      | Obj obj \<Rightarrow>
          let pid = dict_get obj ''pair_id'' (PyStr [])
          in if truthy pid then insert pid pairs else pairs)"

definition load_existing_pairs :: "bool \<Rightarrow> jsonl_line list option \<Rightarrow> pyval set" where
  "load_existing_pairs rsm file =
     (case file of
        None \<Rightarrow> {}
      | Some lines \<Rightarrow> if rsm then foldl add_existing_pair {} lines else {})"

subsection \<open>Reading the manifest\<close>

definition parse_row :: "string \<Rightarrow> entry option" where
  "parse_row line =
     (case split CHR 0x09 (rstrip_newline line) of
        [p, t, c, m, k] \<Rightarrow>
          Some \<lparr>e_path = p, e_title = t, e_pmcid = c, e_pmid = m, e_code = k\<rparr>
      | _ \<Rightarrow> None)"

text \<open>
  The loop over \<^verbatim>\<open>enumerate(lines)\<close>: \<^verbatim>\<open>subset_size\<close> stops it only when it is
  neither \<^verbatim>\<open>None\<close> nor \<open>0\<close>.
\<close>

fun read_rows :: "int option \<Rightarrow> nat \<Rightarrow> string list \<Rightarrow> entry list \<Rightarrow> entry list" where
  "read_rows cap idx [] entries = entries"
| "read_rows cap idx (line # lines) entries =
     (if (case cap of None \<Rightarrow> False | Some n \<Rightarrow> n \<noteq> 0 \<and> int idx + 1 > n) then entries
      else (case parse_row line of
              Some e \<Rightarrow> read_rows cap (idx + 1) lines (entries @ [e])
            | None \<Rightarrow> read_rows cap (idx + 1) lines entries))"

definition read_entries :: "int option \<Rightarrow> string list \<Rightarrow> entry list" where
  "read_entries cap file_lines = read_rows cap 0 (drop 1 file_lines) []"

subsection \<open>Matching a caption to an image member\<close>

definition image_exts :: "string list" where
  "image_exts = [''.jpg'', ''.jpeg'', ''.png'', ''.tif'', ''.tiff'']"

text \<open>
  \<^verbatim>\<open>img_tar_members\<close>: a dictionary from lowercased basename to member, in the order
  the basenames first occur in the archive; a later member with the same basename
  replaces the earlier one in place.
\<close>

type_synonym member_index = "(string \<times> tar_member) list"

definition img_tar_members :: "tar_member list \<Rightarrow> member_index" where
  "img_tar_members tar =
     foldl (\<lambda>d m. if isfile m \<and> list_ex (endswith (lower (member_name m))) image_exts
                   then AList.update (lower (name (Path (member_name m)))) m d
                   else d)
           [] tar"

definition candidates :: "string \<Rightarrow> string list" where
  "candidates graphic_ref =
     (let base = name (Path graphic_ref); stm = stem (Path base)
      in [lower base] @ map (\<lambda>ext. lower (stm @ ext)) image_exts)"

text \<open>The loop over the candidates, left at the first one that is a key.\<close>

fun first_candidate :: "member_index \<Rightarrow> string list \<Rightarrow> tar_member option" where
  "first_candidate idx [] = None"
| "first_candidate idx (c # cs) =
     (case map_of idx c of Some m \<Rightarrow> Some m | None \<Rightarrow> first_candidate idx cs)"

text \<open>The loop over the keys, left at the first one that contains the stem.\<close>

fun first_containing :: "member_index \<Rightarrow> string \<Rightarrow> string list \<Rightarrow> tar_member option" where
  "first_containing idx stm [] = None"
| "first_containing idx stm (mname # mnames) =
     (if str_in stm mname then map_of idx mname else first_containing idx stm mnames)"

definition find_member :: "member_index \<Rightarrow> string \<Rightarrow> tar_member option" where
  "find_member idx graphic_ref =
     (let base = name (Path graphic_ref); stm = stem (Path base)
      in (case first_candidate idx (candidates graphic_ref) of
            Some m \<Rightarrow> Some m
          | None \<Rightarrow> first_containing idx stm (map fst idx)))"

subsection \<open>One caption\<close>

text \<open>
  One pass of the loop over \<^verbatim>\<open>parsed_figs\<close>, on the loop's variables
  (\<^verbatim>\<open>wrote_any\<close> and the run's state). The first component is the exception that
  leaves the loop, if any: the only statement of the body that can raise outside its
  own \<^verbatim>\<open>try\<close> is \<^verbatim>\<open>saved_path.relative_to(images_out_dir)\<close>.
\<close>

definition process_fig ::
  "config \<Rightarrow> env \<Rightarrow> member_index \<Rightarrow> pyval \<Rightarrow> pyval \<Rightarrow> pydict \<Rightarrow> bool \<times> state
     \<Rightarrow> exn option \<times> bool \<times> state"
where
  "process_fig cfg w idx pmid pmc fig ws =
     (let (wrote_any, s) = ws;
          fig_id = py_str (dict_get fig ''fig_id'' (PyStr []));
          fig_caption = strip (py_str (dict_get fig ''fig_caption'' (PyStr [])));
          graphic_ref = dict_get fig ''graphic_ref'' (PyStr [])
      in if fig_caption = [] \<or> \<not> truthy graphic_ref then (None, ws)
         else (case find_member idx (py_str graphic_ref) of
                 None \<Rightarrow> (None, ws)
               | Some member \<Rightarrow>
                   let pair_id = py_str pmid @ ''_'' @ fig_id
                   in if resume cfg \<and> PyStr pair_id \<in> existing_pairs s then (None, ws)
                      else
                        let img_bytes = extract_member_to_bytes member;
                            img_rel = joinpath (Path (py_str pmc))
                                        (Path (py_str pmc @ ''_fig-'' @ fig_id @ ''.jpg''));
                            img_abs = joinpath (images_out_dir cfg) img_rel
                        in (case ensure_jpeg_and_save w img_bytes img_abs (images s) of
                              Inl e \<Rightarrow> (None, ws)
                            | Inr (saved_path, files) \<Rightarrow>
                                (case relative_to saved_path (images_out_dir cfg) of
                                   None \<Rightarrow> (Some ValueError, wrote_any, s\<lparr>images := files\<rparr>)
                                 | Some rel \<Rightarrow>
                                     let record' = [(''image'', PyStr (as_posix rel)),
                                                   (''caption'', PyStr fig_caption),
                                                   (''pmid'', pmid),
                                                   (''pmcid'', pmc),
                                                   (''pair_id'', PyStr pair_id)]
                                     in (None, True,
                                         s\<lparr>images := files,
                                           jf := jf s @ [Obj record'],
                                           existing_pairs := insert (PyStr pair_id) (existing_pairs s),
                                           n_written := n_written s + 1\<rparr>)))))"

fun process_figs ::
  "config \<Rightarrow> env \<Rightarrow> member_index \<Rightarrow> pyval \<Rightarrow> pyval \<Rightarrow> pydict list \<Rightarrow> bool \<times> state
     \<Rightarrow> exn option \<times> bool \<times> state"
where
  "process_figs cfg w idx pmid pmc [] ws = (None, ws)"
| "process_figs cfg w idx pmid pmc (fig # figs) ws =
     (case process_fig cfg w idx pmid pmc fig ws of
        (Some e, ws') \<Rightarrow> (Some e, ws')
      | (None, ws') \<Rightarrow> process_figs cfg w idx pmid pmc figs ws')"

subsection \<open>One manifest entry\<close>

text \<open>\<^verbatim>\<open>n_skipped += 1\<close>.\<close>

definition skip :: "state \<Rightarrow> state" where
  "skip s = s\<lparr>n_skipped := n_skipped s + 1\<rparr>"

text \<open>The primary URL of an entry, with the archive extension enforced.\<close>

definition primary_url :: "config \<Rightarrow> string \<Rightarrow> string" where
  "primary_url cfg rel_path =
     PRIMARY_BASE @ (if endswith rel_path (file_extension cfg) then rel_path
                     else rel_path @ file_extension cfg)"

text \<open>The URL of the same relative path on the fallback endpoint.\<close>

definition fallback_url :: "config \<Rightarrow> string \<Rightarrow> string" where
  "fallback_url cfg rel_path =
     FALLBACK_BASE @ (if endswith rel_path (file_extension cfg) then rel_path
                      else rel_path @ file_extension cfg)"

text \<open>The download, with the fallback when \<^verbatim>\<open>use_dual_base\<close> is set.\<close>

definition download ::
  "config \<Rightarrow> env \<Rightarrow> string \<Rightarrow> request list \<Rightarrow> (exn + tarball) \<times> request list"
where
  "download cfg w rel_path log =
     (if use_dual_base cfg
      then try_download_with_fallback w rel_path (file_extension cfg) log
      else stream_download w (primary_url cfg rel_path) log)"

text \<open>
  The block \<^verbatim>\<open>with _safe_open_tar(tar_path) as tar\<close>, on the downloaded body. The
  first component is the exception that leaves the block, if any; a \<^verbatim>\<open>continue\<close>
  inside the block has counted its skip already.
\<close>

definition process_archive ::
  "config \<Rightarrow> env \<Rightarrow> entry \<Rightarrow> tarball \<Rightarrow> state \<Rightarrow> exn option \<times> state"
where
  "process_archive cfg w ent body s =
     (let pmcid = e_pmcid ent; pmid = e_pmid ent
      in (case safe_open_tar body of
            Inl e \<Rightarrow> (Some e, s)
          | Inr tar \<Rightarrow>
              (case members_by_ext tar [''.nxml''] of
                 [] \<Rightarrow> (None, skip s)
               | nxml # _ \<Rightarrow>
                   (case parse_pubmed_caption w (extract_member_to_bytes nxml) of
                      Inl e \<Rightarrow>
                        if e = XMLSyntaxError \<or> e = AttributeError then (None, skip s)
                        else (Some e, s)
                    | Inr None \<Rightarrow> (None, skip s)
                    | Inr (Some []) \<Rightarrow> (None, skip s)
                    | Inr (Some (fig0 # figs)) \<Rightarrow>
                        let idx = img_tar_members tar;
                            pmid' = py_or (dict_get fig0 ''pmid'' (PyStr pmid)) (PyStr pmid);
                            pmc' = py_or (dict_get fig0 ''pmc'' (PyStr pmcid)) (PyStr pmcid)
                        in (case process_figs cfg w idx pmid' pmc' (fig0 # figs) (False, s) of
                              (Some e, wrote_any, s2) \<Rightarrow> (Some e, s2)
                            | (None, wrote_any, s2) \<Rightarrow>
                                (None, if \<not> wrote_any then skip s2 else s2))))))"

text \<open>
  The body of the \<^verbatim>\<open>try\<close> statement: the download, then the archive. The first
  component is the exception that reaches the \<^verbatim>\<open>except\<close> clauses, if any.
\<close>

definition entry_body :: "config \<Rightarrow> env \<Rightarrow> entry \<Rightarrow> state \<Rightarrow> exn option \<times> state" where
  "entry_body cfg w ent s =
     (let (downloaded, log) = download cfg w (e_path ent) (net_log s);
          s1 = s\<lparr>net_log := log\<rparr>
      in (case downloaded of
            Inl e \<Rightarrow> (Some e, s1)
          | Inr body \<Rightarrow> process_archive cfg w ent body s1))"

text \<open>The \<^verbatim>\<open>try\<close> statement with its three \<^verbatim>\<open>except\<close> clauses.\<close>

definition try_entry :: "config \<Rightarrow> env \<Rightarrow> entry \<Rightarrow> state \<Rightarrow> state" where
  "try_entry cfg w ent s =
     (case entry_body cfg w ent s of
        (None, s') \<Rightarrow> s'
      | (Some e, s') \<Rightarrow>
          if e = HTTPError then skip s'
          else if e = ReadError then skip s'
          else skip s')"

text \<open>One pass of the loop over the entries: the size check, then the \<^verbatim>\<open>try\<close>.\<close>

definition process_entry :: "config \<Rightarrow> env \<Rightarrow> state \<Rightarrow> entry \<Rightarrow> state" where
  "process_entry cfg w s ent =
     (case max_filesize_mb cfg of
        None \<Rightarrow> try_entry cfg w ent s
      | Some mb \<Rightarrow>
          let (size_bytes, log) = response_size w (primary_url cfg (e_path ent)) (net_log s);
              s0 = s\<lparr>net_log := log\<rparr>
          in (case size_bytes of
                None \<Rightarrow> try_entry cfg w ent s0
              | Some n \<Rightarrow> if n > mb * 1024 * 1024 then skip s0 else try_entry cfg w ent s0))"

subsection \<open>The run\<close>

text \<open>The lines of the output file, none when the file does not exist yet.\<close>

definition lines_of :: "filesystem \<Rightarrow> jsonl_line list" where
  "lines_of fs = (case jsonl_file fs of None \<Rightarrow> [] | Some lines \<Rightarrow> lines)"

definition initial_state :: "config \<Rightarrow> filesystem \<Rightarrow> state" where
  "initial_state cfg fs =
     \<lparr>existing_pairs = load_existing_pairs (resume cfg) (jsonl_file fs),
      jf = lines_of fs,
      images = image_files fs,
      n_written = 0,
      n_skipped = 0,
      net_log = []\<rparr>"

definition build_pubmed_image_caption_dataset_streaming ::
  "config \<Rightarrow> env \<Rightarrow> string list \<Rightarrow> filesystem \<Rightarrow> state"
where
  "build_pubmed_image_caption_dataset_streaming cfg w file_list fs =
     foldl (process_entry cfg w) (initial_state cfg fs) (read_entries (subset_size cfg) file_list)"


section \<open>Reading the results\<close>

text \<open>The pair id that the loop body builds for a caption.\<close>

definition fig_pair_id :: "pyval \<Rightarrow> pydict \<Rightarrow> string" where
  "fig_pair_id pmid fig = py_str pmid @ ''_'' @ py_str (dict_get fig ''fig_id'' (PyStr []))"

text \<open>
  The pair id of a line of the output file, as the resume step reads it, and the pair
  ids of a file: those the resume step collects.
\<close>

definition line_pair_id :: "jsonl_line \<Rightarrow> pyval" where
  "line_pair_id line =
     (case line of Garbage \<Rightarrow> PyStr [] | Obj obj \<Rightarrow> dict_get obj ''pair_id'' (PyStr []))"

definition pair_ids :: "jsonl_line list \<Rightarrow> pyval list" where
  "pair_ids lines = filter truthy (map line_pair_id lines)"


text \<open>
  A record line of the five fields whose \<^verbatim>\<open>pmid\<close> and \<^verbatim>\<open>pmcid\<close> are the given ones and
  whose \<^verbatim>\<open>pair_id\<close> is built from that \<^verbatim>\<open>pmid\<close> and the \<^verbatim>\<open>fig_id\<close> of one of the
  captions.
\<close>

definition written_by :: "pyval \<Rightarrow> pyval \<Rightarrow> pydict list \<Rightarrow> jsonl_line \<Rightarrow> bool" where
  "written_by pmid pmc figs line =
     (case line of
        Garbage \<Rightarrow> False
      | Obj obj \<Rightarrow>
          map fst obj = [''image'', ''caption'', ''pmid'', ''pmcid'', ''pair_id'']
          \<and> map_of obj ''pmid'' = Some pmid
          \<and> map_of obj ''pmcid'' = Some pmc
          \<and> list_ex (\<lambda>fig. map_of obj ''pair_id'' = Some (PyStr (fig_pair_id pmid fig))) figs)"

section \<open>Example inputs\<close>

text \<open>A manifest row: the five fields, tab-separated, and the newline.\<close>

definition row :: "string \<Rightarrow> string \<Rightarrow> string \<Rightarrow> string \<Rightarrow> string \<Rightarrow> string" where
  "row p t c m k = join [CHR 0x09] [p, t, c, m, k] @ [CHR 0x0A]"

text \<open>A manifest whose first line after the header has four fields only.\<close>

definition manifest_with_bad_row :: "string list" where
  "manifest_with_bad_row =
     [''File'' @ [CHR 0x0A],
      ''oa_package/00/00/PMC0.tar.gz'' @ [CHR 0x09] @ ''t'' @ [CHR 0x09] @ ''PMC0'' @ [CHR 0x09] @ ''1000''
        @ [CHR 0x0A],
      row ''oa_package/00/00/PMC1.tar.gz'' ''titleX'' ''PMC1'' ''1001'' ''CC0'',
      row ''oa_package/00/00/PMC2.tar.gz'' ''titleY'' ''PMC2'' ''1002'' ''CC0'']"

definition entry1 :: entry where
  "entry1 = \<lparr>e_path = ''oa_package/00/00/PMC1.tar.gz'', e_title = ''titleX'', e_pmcid = ''PMC1'',
              e_pmid = ''1001'', e_code = ''CC0''\<rparr>"

definition entry2 :: entry where
  "entry2 = \<lparr>e_path = ''oa_package/00/00/PMC2.tar.gz'', e_title = ''titleY'', e_pmcid = ''PMC2'',
              e_pmid = ''1002'', e_code = ''CC0''\<rparr>"

text \<open>An archive with one markup member and two image members.\<close>

definition article_nxml :: tar_member where
  "article_nxml = \<lparr>member_name = ''PMC1/article.nxml'', isfile = True, content = ''<article/>''\<rparr>"

definition fig3_png :: tar_member where
  "fig3_png = \<lparr>member_name = ''fig3.png'', isfile = True, content = ''png-bytes''\<rparr>"

definition other_jpg :: tar_member where
  "other_jpg = \<lparr>member_name = ''other.jpg'', isfile = True, content = ''jpg-bytes''\<rparr>"

definition tar1 :: "tar_member list" where
  "tar1 = [article_nxml, fig3_png, other_jpg]"

text \<open>Captions: one whose reference matches no member, two that match.\<close>

definition fig_unmatched :: pydict where
  "fig_unmatched = [(''pmid'', PyStr ''1001''), (''pmc'', PyStr ''PMC1''),
                    (''fig_caption'', PyStr ''No image.''), (''fig_id'', PyStr ''F9''),
                    (''graphic_ref'', PyStr ''missing'')]"

definition fig_F3 :: pydict where
  "fig_F3 = [(''pmid'', PyStr ''1001''), (''pmc'', PyStr ''PMC1''),
             (''fig_caption'', PyStr ''A cell.''), (''fig_id'', PyStr ''F3''),
             (''graphic_ref'', PyStr ''fig3'')]"

definition fig_F4 :: pydict where
  "fig_F4 = [(''pmid'', PyStr ''1001''), (''pmc'', PyStr ''PMC1''),
             (''fig_caption'', PyStr ''Another cell.''), (''fig_id'', PyStr ''F4''),
             (''graphic_ref'', PyStr ''other.jpg'')]"

definition cfg1 :: config where
  "cfg1 = \<lparr>images_out_dir = Path ''out/images'', subset_size = None,
            file_extension = ''.tar.gz'', max_filesize_mb = None, resume = True,
            use_dual_base = True\<rparr>"

text \<open>A codec that reads the two images, one with an alpha channel, one in grey.\<close>

definition decode1 :: "bytes \<Rightarrow> pil_image option" where
  "decode1 b =
     (if b = ''png-bytes'' then Some \<lparr>mode = ''RGBA'', pixels = b\<rparr>
      else if b = ''jpg-bytes'' then Some \<lparr>mode = ''L'', pixels = b\<rparr>
      else None)"

definition env1 :: env where
  "env1 = \<lparr>http_head = (\<lambda>url. HeadNoLength),
            http_get = (\<lambda>url. if url = PRIMARY_BASE @ e_path entry1 then Inr (TarGz tar1)
                               else Inl HTTPError),
            parse_pubmed_caption = (\<lambda>b. Inr (Some [fig_unmatched, fig_F3, fig_F4])),
            image_open = decode1,
            can_save = (\<lambda>p im. True)\<rparr>"

definition no_files :: filesystem where
  "no_files = \<lparr>jsonl_file = None, image_files = Map.empty\<rparr>"

text \<open>A ceiling of one megabyte, and endpoints that report five million bytes.\<close>

definition cfg_ceiling :: config where
  "cfg_ceiling = cfg1\<lparr>max_filesize_mb := Some 1\<rparr>"

definition env_big :: env where
  "env_big = env1\<lparr>http_head := (\<lambda>url. HeadLength 5000000)\<rparr>"

text \<open>The primary endpoint fails, the fallback serves the archive.\<close>

definition env_fallback :: env where
  "env_fallback =
     env1\<lparr>http_get := (\<lambda>url. if url = FALLBACK_BASE @ e_path entry1 then Inr (TarGz tar1)
                                 else Inl HTTPError)\<rparr>"

text \<open>Both endpoints fail.\<close>

definition env_down :: env where
  "env_down = env1\<lparr>http_get := (\<lambda>url. Inl HTTPError)\<rparr>"

text \<open>A manifest of one row, and the run without resume.\<close>

definition manifest1 :: "string list" where
  "manifest1 = [''File'' @ [CHR 0x0A],
                row ''oa_package/00/00/PMC1.tar.gz'' ''titleX'' ''PMC1'' ''1001'' ''CC0'']"


text \<open>A second caption with the figure id of \<open>fig_F3\<close>, pointing at the other image.\<close>

definition fig_F3_again :: pydict where
  "fig_F3_again = [(''pmid'', PyStr ''1001''), (''pmc'', PyStr ''PMC1''),
                   (''fig_caption'', PyStr ''The same cell.''), (''fig_id'', PyStr ''F3''),
                   (''graphic_ref'', PyStr ''other'')]"

text \<open>The two record lines that the archive \<open>tar1\<close> yields for \<open>entry1\<close>.\<close>

definition line_F3 :: jsonl_line where
  "line_F3 = Obj [(''image'', PyStr ''PMC1/PMC1_fig-F3.jpg''), (''caption'', PyStr ''A cell.''),
                  (''pmid'', PyStr ''1001''), (''pmcid'', PyStr ''PMC1''),
                  (''pair_id'', PyStr ''1001_F3'')]"

definition line_F4 :: jsonl_line where
  "line_F4 = Obj [(''image'', PyStr ''PMC1/PMC1_fig-F4.jpg''),
                  (''caption'', PyStr ''Another cell.''),
                  (''pmid'', PyStr ''1001''), (''pmcid'', PyStr ''PMC1''),
                  (''pair_id'', PyStr ''1001_F4'')]"

text \<open>
  A later caption whose own \<^verbatim>\<open>pmid\<close> and \<^verbatim>\<open>pmc\<close> differ from those of the first one, and
  a world whose parser returns it after \<open>fig_F3\<close>.
\<close>

definition fig_G :: pydict where
  "fig_G = [(''pmid'', PyStr ''9999''), (''pmc'', PyStr ''PMC9''),
            (''fig_caption'', PyStr ''A tissue.''), (''fig_id'', PyStr ''G1''),
            (''graphic_ref'', PyStr ''other'')]"

definition env_mixed :: env where
  "env_mixed = env1\<lparr>parse_pubmed_caption := (\<lambda>b. Inr (Some [fig_F3, fig_G]))\<rparr>"

definition line_G :: jsonl_line where
  "line_G = Obj [(''image'', PyStr ''PMC1/PMC1_fig-G1.jpg''), (''caption'', PyStr ''A tissue.''),
                 (''pmid'', PyStr ''1001''), (''pmcid'', PyStr ''PMC1''),
                 (''pair_id'', PyStr ''1001_G1'')]"

text \<open>A first caption without \<^verbatim>\<open>pmid\<close> and with an empty \<^verbatim>\<open>pmc\<close>.\<close>

definition fig_bare :: pydict where
  "fig_bare = [(''pmc'', PyStr []), (''fig_caption'', PyStr ''A cell.''),
               (''fig_id'', PyStr ''F3''), (''graphic_ref'', PyStr ''fig3'')]"

section \<open>Reading the manifest under a subset cap\<close>

lemma read_rows_cap:
  "n \<noteq> 0 \<Longrightarrow> read_rows (Some n) idx lines acc
     = acc @ List.map_filter parse_row (take (nat (n - int idx)) lines)"
proof (induction lines arbitrary: idx acc)
  case Nil
  then show ?case by simp
next
  case (Cons l ls)
  show ?case
  proof (cases "int idx + 1 > n")
    case True
    then have "nat (n - int idx) = 0" by simp
    with True Cons.prems show ?thesis by simp
  next
    case False
    then obtain k where k: "nat (n - int idx) = Suc k" "nat (n - int (idx + 1)) = k"
      by (cases "nat (n - int idx)") auto
    from False Cons.prems Cons.IH[OF Cons.prems, of "idx + 1"] k show ?thesis
      by (simp split: option.splits)
  qed
qed

lemma read_rows_nocap:
  "cap = None \<or> cap = Some 0 \<Longrightarrow>
     read_rows cap idx lines acc = acc @ List.map_filter parse_row lines"
  by (induction lines arbitrary: idx acc) (auto split: option.splits)

lemma read_entries_bad_row:
  "read_entries (Some 2) manifest_with_bad_row = [entry1]"
  by (simp add: read_entries_def manifest_with_bad_row_def row_def parse_row_def
      rstrip_newline_def entry1_def)

text \<open>
  Claim C9. A non-zero \<^verbatim>\<open>subset_size\<close> \<open>n\<close> keeps the first \<open>n\<close> raw lines after the
  header, in file order, and the malformed ones among them are dropped afterwards, so
  they count against the cap: with a cap of 2 the example manifest, whose first row is
  malformed, yields one entry. A cap of \<open>0\<close> reads every line, as no cap does.
\<close>

theorem subset_cap_counts_raw_lines:
  "(n \<noteq> 0 \<longrightarrow>
      read_entries (Some n) file_lines
        = List.map_filter parse_row (take (nat n) (drop 1 file_lines)))
   \<and> read_entries (Some 0) file_lines = List.map_filter parse_row (drop 1 file_lines)
   \<and> read_entries None file_lines = List.map_filter parse_row (drop 1 file_lines)
   \<and> length (read_entries (Some 2) manifest_with_bad_row) < 2"
proof -
  have "length (read_entries (Some 2) manifest_with_bad_row) < 2"
    by (simp only: read_entries_bad_row) simp
  then show ?thesis
    using read_rows_cap[of n 0 "drop 1 file_lines" "[]"]
      read_rows_nocap[of "Some 0" 0 "drop 1 file_lines" "[]"]
      read_rows_nocap[of None 0 "drop 1 file_lines" "[]"]
    by (simp add: read_entries_def del: read_rows.simps)
qed

theorem subset_cap_counts_raw_lines_witness:
  "(2::int) \<noteq> 0 \<and> read_entries (Some 2) manifest_with_bad_row = [entry1]
   \<and> List.map_filter parse_row (take 2 (drop 1 manifest_with_bad_row)) = [entry1]"
proof -
  have "read_entries (Some 2) manifest_with_bad_row
          = List.map_filter parse_row (take (nat 2) (drop 1 manifest_with_bad_row))"
    using subset_cap_counts_raw_lines[of 2 manifest_with_bad_row] by simp
  moreover have "List.map_filter parse_row (take 2 (drop 1 manifest_with_bad_row)) = [entry1]"
    by (simp add: manifest_with_bad_row_def row_def parse_row_def rstrip_newline_def entry1_def)
  ultimately show ?thesis by simp
qed

section \<open>The image matcher\<close>







lemma img_tar_members_tar1:
  "img_tar_members tar1 = [(''fig3.png'', fig3_png), (''other.jpg'', other_jpg)]"
  by (simp add: img_tar_members_def tar1_def article_nxml_def fig3_png_def other_jpg_def
      image_exts_def endswith_def lower_def lower_char_def Path_def name_def)

lemmas matcher_eval =
  find_member_def candidates_def Let_def Path_def name_def stem_def image_exts_def lower_def
  lower_char_def startswith_def

lemma find_member_fig3: "find_member (img_tar_members tar1) ''fig3'' = Some fig3_png"
  by (simp add: img_tar_members_tar1 matcher_eval)

lemma find_member_missing: "find_member (img_tar_members tar1) ''missing'' = None"
  by (simp add: img_tar_members_tar1 matcher_eval)



lemmas path_eval =
  Path_def splitroot_def name_def stem_def suffix_def with_suffix_def relative_to_def
  joinpath_def as_posix_def Let_def lower_def lower_char_def

lemmas example_eval =
  dict_get_def strip_def is_space_def initial_state_def lines_of_def load_existing_pairs_def no_files_def
  cfg1_def env1_def extract_member_to_bytes_def fig3_png_def other_jpg_def
  ensure_jpeg_and_save_def decode1_def convert_def



section \<open>Requests made for one entry\<close>

lemma download_dual:
  "use_dual_base cfg \<Longrightarrow>
   download cfg w rel log =
     (case http_get w (primary_url cfg rel) of
        Inr body \<Rightarrow> (Inr body, log @ [Get (primary_url cfg rel)])
      | Inl e1 \<Rightarrow>
          (case http_get w (fallback_url cfg rel) of
             Inr body \<Rightarrow> (Inr body, log @ [Get (primary_url cfg rel), Get (fallback_url cfg rel)])
           | Inl e2 \<Rightarrow> (Inl RuntimeError, log @ [Get (primary_url cfg rel), Get (fallback_url cfg rel)])))"
  by (simp add: download_def try_download_with_fallback_def stream_download_def primary_url_def
      fallback_url_def Let_def split: sum.splits)

lemma download_single:
  "\<not> use_dual_base cfg \<Longrightarrow>
   download cfg w rel log = (http_get w (primary_url cfg rel), log @ [Get (primary_url cfg rel)])"
  by (simp add: download_def stream_download_def)

lemma download_log:
  "snd (download cfg w rel log) =
     log @ Get (primary_url cfg rel) #
       (if use_dual_base cfg \<and> isl (http_get w (primary_url cfg rel))
        then [Get (fallback_url cfg rel)] else [])"
  by (cases "use_dual_base cfg") (auto simp: download_dual download_single split: sum.splits)

lemma process_fig_net_log:
  "process_fig cfg w idx pmid pmc fig (b, s) = (r, b', s') \<Longrightarrow> net_log s' = net_log s"
  by (auto simp: process_fig_def Let_def split: if_splits option.splits sum.splits prod.splits)

lemma process_figs_net_log:
  "process_figs cfg w idx pmid pmc figs (b, s) = (r, b', s') \<Longrightarrow> net_log s' = net_log s"
proof (induction figs arbitrary: b s)
  case Nil
  then show ?case by simp
next
  case (Cons fig figs)
  obtain r1 b1 s1 where st: "process_fig cfg w idx pmid pmc fig (b, s) = (r1, b1, s1)"
    by (cases "process_fig cfg w idx pmid pmc fig (b, s)") auto
  from process_fig_net_log[OF st] have l1: "net_log s1 = net_log s" .
  show ?case
  proof (cases r1)
    case None
    with Cons.prems st have "process_figs cfg w idx pmid pmc figs (b1, s1) = (r, b', s')" by simp
    from Cons.IH[OF this] l1 show ?thesis by simp
  next
    case (Some e)
    with Cons.prems st l1 show ?thesis by simp
  qed
qed

lemma process_archive_net_log:
  "net_log (snd (process_archive cfg w ent body s)) = net_log s"
  by (auto simp: process_archive_def Let_def skip_def
      split: sum.splits list.splits option.splits prod.splits if_splits
      simp del: process_figs.simps dest!: process_figs_net_log)

lemma entry_body_net_log:
  "net_log (snd (entry_body cfg w ent s)) = snd (download cfg w (e_path ent) (net_log s))"
  by (cases "download cfg w (e_path ent) (net_log s)")
    (simp add: entry_body_def Let_def process_archive_net_log split: sum.splits)

lemma try_entry_net_log:
  "net_log (try_entry cfg w ent s) = snd (download cfg w (e_path ent) (net_log s))"
  using entry_body_net_log[of cfg w ent s]
  by (cases "entry_body cfg w ent s") (auto simp: try_entry_def skip_def split: option.splits)

section \<open>The example archive, evaluated\<close>

lemma entry1_urls: "primary_url cfg1 (e_path entry1) = PRIMARY_BASE @ e_path entry1"
  "fallback_url cfg1 (e_path entry1) = FALLBACK_BASE @ e_path entry1"
  by (simp_all add: primary_url_def fallback_url_def cfg1_def entry1_def endswith_def)

lemma members_by_ext_tar1: "members_by_ext tar1 [''.nxml''] = [article_nxml]"
  by (simp add: members_by_ext_def tar1_def article_nxml_def fig3_png_def other_jpg_def endswith_def lower_def lower_char_def)

lemma find_member_other: "find_member (img_tar_members tar1) ''other.jpg'' = Some other_jpg"
  by (simp add: img_tar_members_tar1 matcher_eval)

lemma process_archive_tar1_fresh:
  assumes "parse_pubmed_caption w (content article_nxml) = Inr (Some [fig_unmatched, fig_F3, fig_F4])"
    and "image_open w = decode1" and "can_save w = (\<lambda>p im. True)"
    and "images_out_dir cfg = Path ''out/images''"
    and "resume cfg \<longrightarrow> PyStr ''1001_F3'' \<notin> existing_pairs s \<and> PyStr ''1001_F4'' \<notin> existing_pairs s"
  shows "process_archive cfg w entry1 (TarGz tar1) s
   = (None,
      s\<lparr>images := (images s)
           (''out/images/PMC1/PMC1_fig-F3.jpg'' \<mapsto> \<lparr>mode = ''RGB'', pixels = ''png-bytes''\<rparr>,
            ''out/images/PMC1/PMC1_fig-F4.jpg'' \<mapsto> \<lparr>mode = ''RGB'', pixels = ''jpg-bytes''\<rparr>),
        jf := jf s @ [line_F3, line_F4],
        existing_pairs := insert (PyStr ''1001_F4'') (insert (PyStr ''1001_F3'') (existing_pairs s)),
        n_written := n_written s + 2\<rparr>)"
  using assms
  by (cases "resume cfg")
    (simp_all add: process_archive_def safe_open_tar_def members_by_ext_tar1
      extract_member_to_bytes_def process_fig_def find_member_fig3 find_member_missing
      find_member_other fig_F3_def fig_F4_def fig_unmatched_def py_or_def entry1_def dict_get_def
      strip_def is_space_def line_F3_def line_F4_def
      fig3_png_def other_jpg_def article_nxml_def ensure_jpeg_and_save_def decode1_def
      convert_def path_eval)


lemma read_manifest1: "read_entries None manifest1 = [entry1]"
  by (simp add: read_entries_def manifest1_def row_def parse_row_def rstrip_newline_def entry1_def)

section \<open>The size guard\<close>

lemma process_entry_no_ceiling:
  "max_filesize_mb cfg = None \<Longrightarrow> process_entry cfg w s ent = try_entry cfg w ent s"
  by (simp add: process_entry_def)

lemma process_entry_ceiling:
  "max_filesize_mb cfg = Some mb \<Longrightarrow>
   process_entry cfg w s ent =
     (let s0 = s\<lparr>net_log := net_log s @ [Head (primary_url cfg (e_path ent))]\<rparr>
      in case http_head w (primary_url cfg (e_path ent)) of
           HeadLength n \<Rightarrow> if n > mb * 1024 * 1024 then skip s0 else try_entry cfg w ent s0
         | _ \<Rightarrow> try_entry cfg w ent s0)"
  by (simp add: process_entry_def response_size_def Let_def split: head_result.splits)

text \<open>
  Claim C7. With a ceiling configured, the first request made for an entry is the size
  query on the primary URL, before any download; when the reported size exceeds the
  ceiling (in bytes, \<^verbatim>\<open>max_filesize_mb * 1024 * 1024\<close>) the entry is counted as skipped
  and nothing is downloaded; when the size is not available (the query raises, or the
  header is missing or not a number) the entry goes on to the download. With no ceiling
  configured the requests of an entry are its downloads only: no size query is made.
\<close>

theorem size_guard:
  "(max_filesize_mb cfg = None \<longrightarrow>
      net_log (process_entry cfg w s ent)
        = net_log s @ Get (primary_url cfg (e_path ent)) #
            (if use_dual_base cfg \<and> isl (http_get w (primary_url cfg (e_path ent)))
             then [Get (fallback_url cfg (e_path ent))] else []))
   \<and> (max_filesize_mb cfg = Some mb \<longrightarrow>
        take (Suc (length (net_log s))) (net_log (process_entry cfg w s ent))
          = net_log s @ [Head (primary_url cfg (e_path ent))])
   \<and> (max_filesize_mb cfg = Some mb \<and> http_head w (primary_url cfg (e_path ent)) = HeadLength n
        \<and> n > mb * 1024 * 1024 \<longrightarrow>
        process_entry cfg w s ent
          = s\<lparr>n_skipped := n_skipped s + 1,
              net_log := net_log s @ [Head (primary_url cfg (e_path ent))]\<rparr>)
   \<and> (max_filesize_mb cfg = Some mb
        \<and> (http_head w (primary_url cfg (e_path ent)) = HeadRaises
           \<or> http_head w (primary_url cfg (e_path ent)) = HeadNoLength
           \<or> http_head w (primary_url cfg (e_path ent)) = HeadBadLength) \<longrightarrow>
        process_entry cfg w s ent
          = try_entry cfg w ent (s\<lparr>net_log := net_log s @ [Head (primary_url cfg (e_path ent))]\<rparr>)
        \<and> take (Suc (Suc (length (net_log s)))) (net_log (process_entry cfg w s ent))
          = net_log s @ [Head (primary_url cfg (e_path ent)), Get (primary_url cfg (e_path ent))])"
proof (intro conjI impI)
  assume "max_filesize_mb cfg = None"
  then show "net_log (process_entry cfg w s ent)
        = net_log s @ Get (primary_url cfg (e_path ent)) #
            (if use_dual_base cfg \<and> isl (http_get w (primary_url cfg (e_path ent)))
             then [Get (fallback_url cfg (e_path ent))] else [])"
    by (simp only: process_entry_no_ceiling try_entry_net_log download_log)
next
  assume "max_filesize_mb cfg = Some mb"
  then show "take (Suc (length (net_log s))) (net_log (process_entry cfg w s ent))
          = net_log s @ [Head (primary_url cfg (e_path ent))]"
    by (simp add: process_entry_ceiling Let_def try_entry_net_log download_log skip_def
        split: head_result.splits)
next
  assume "max_filesize_mb cfg = Some mb \<and> http_head w (primary_url cfg (e_path ent)) = HeadLength n
        \<and> n > mb * 1024 * 1024"
  then show "process_entry cfg w s ent
          = s\<lparr>n_skipped := n_skipped s + 1,
              net_log := net_log s @ [Head (primary_url cfg (e_path ent))]\<rparr>"
    by (simp add: process_entry_ceiling Let_def skip_def)
next
  assume a: "max_filesize_mb cfg = Some mb
        \<and> (http_head w (primary_url cfg (e_path ent)) = HeadRaises
           \<or> http_head w (primary_url cfg (e_path ent)) = HeadNoLength
           \<or> http_head w (primary_url cfg (e_path ent)) = HeadBadLength)"
  then show "process_entry cfg w s ent
          = try_entry cfg w ent (s\<lparr>net_log := net_log s @ [Head (primary_url cfg (e_path ent))]\<rparr>)"
    by (auto simp: process_entry_ceiling Let_def)
  with a show "take (Suc (Suc (length (net_log s)))) (net_log (process_entry cfg w s ent))
          = net_log s @ [Head (primary_url cfg (e_path ent)), Get (primary_url cfg (e_path ent))]"
    by (simp add: try_entry_net_log download_log)
qed

theorem size_guard_witness:
  "max_filesize_mb cfg1 = None
   \<and> net_log (process_entry cfg1 env1 (initial_state cfg1 no_files) entry1)
       = [Get (primary_url cfg1 (e_path entry1))]
   \<and> max_filesize_mb cfg_ceiling = Some 1
   \<and> http_head env_big (primary_url cfg_ceiling (e_path entry1)) = HeadLength 5000000
   \<and> (5000000::int) > 1 * 1024 * 1024
   \<and> n_skipped (process_entry cfg_ceiling env_big (initial_state cfg_ceiling no_files) entry1) = 1
   \<and> net_log (process_entry cfg_ceiling env_big (initial_state cfg_ceiling no_files) entry1)
       = [Head (primary_url cfg_ceiling (e_path entry1))]
   \<and> http_head env1 (primary_url cfg_ceiling (e_path entry1)) = HeadNoLength
   \<and> take 2 (net_log (process_entry cfg_ceiling env1 (initial_state cfg_ceiling no_files) entry1))
       = [Head (primary_url cfg_ceiling (e_path entry1)),
          Get (primary_url cfg_ceiling (e_path entry1))]"
proof -
  have none: "max_filesize_mb cfg1 = None" and some: "max_filesize_mb cfg_ceiling = Some 1"
    by (simp_all add: cfg1_def cfg_ceiling_def)
  have big: "http_head env_big (primary_url cfg_ceiling (e_path entry1)) = HeadLength 5000000"
    and nolen: "http_head env1 (primary_url cfg_ceiling (e_path entry1)) = HeadNoLength"
    by (simp_all add: env_big_def env1_def)
  have ok: "http_get env1 (primary_url cfg1 (e_path entry1)) = Inr (TarGz tar1)"
    by (simp add: env1_def primary_url_def cfg1_def entry1_def endswith_def)
  have empty: "net_log (initial_state cfg1 no_files) = []"
    "net_log (initial_state cfg_ceiling no_files) = []"
    "n_skipped (initial_state cfg_ceiling no_files) = 0"
    by (simp_all add: initial_state_def)
  have a: "net_log (process_entry cfg1 env1 (initial_state cfg1 no_files) entry1)
             = [Get (primary_url cfg1 (e_path entry1))]"
    using size_guard[where cfg = cfg1 and w = env1 and s = "initial_state cfg1 no_files"
        and ent = entry1] none ok empty
    by simp
  have b: "process_entry cfg_ceiling env_big (initial_state cfg_ceiling no_files) entry1
             = (initial_state cfg_ceiling no_files)
                 \<lparr>n_skipped := n_skipped (initial_state cfg_ceiling no_files) + 1,
                  net_log := net_log (initial_state cfg_ceiling no_files)
                               @ [Head (primary_url cfg_ceiling (e_path entry1))]\<rparr>"
    using size_guard[where cfg = cfg_ceiling and mb = 1 and w = env_big and ent = entry1
        and n = 5000000 and s = "initial_state cfg_ceiling no_files"] some big
    by simp
  have "take (Suc (Suc (length (net_log (initial_state cfg_ceiling no_files)))))
          (net_log (process_entry cfg_ceiling env1 (initial_state cfg_ceiling no_files) entry1))
        = net_log (initial_state cfg_ceiling no_files)
            @ [Head (primary_url cfg_ceiling (e_path entry1)),
               Get (primary_url cfg_ceiling (e_path entry1))]"
    using size_guard[where cfg = cfg_ceiling and mb = 1 and w = env1 and ent = entry1
        and s = "initial_state cfg_ceiling no_files"] some nolen
    by blast
  then have c: "take 2 (net_log (process_entry cfg_ceiling env1
                                    (initial_state cfg_ceiling no_files) entry1))
             = [Head (primary_url cfg_ceiling (e_path entry1)),
                Get (primary_url cfg_ceiling (e_path entry1))]"
    by (simp add: empty numeral_2_eq_2)
  show ?thesis
    using none some big nolen a c by (simp add: b empty)
qed

section \<open>Retrieval with the fallback endpoint\<close>

lemma ensure_http_get:
  "ensure_jpeg_and_save (w\<lparr>http_get := g\<rparr>) = ensure_jpeg_and_save w"
  by (simp add: fun_eq_iff ensure_jpeg_and_save_def Let_def cong: option.case_cong)

lemma process_fig_http_get:
  "process_fig cfg (w\<lparr>http_get := g\<rparr>) idx pmid pmc fig ws = process_fig cfg w idx pmid pmc fig ws"
  by (cases ws) (simp add: process_fig_def ensure_http_get Let_def
      cong: option.case_cong sum.case_cong if_cong)

lemma process_figs_http_get:
  "process_figs cfg (w\<lparr>http_get := g\<rparr>) idx pmid pmc figs ws = process_figs cfg w idx pmid pmc figs ws"
  by (induction figs arbitrary: ws)
    (simp_all add: process_fig_http_get split: prod.splits option.splits)

lemma process_archive_http_get:
  "process_archive cfg (w\<lparr>http_get := g\<rparr>) ent body s = process_archive cfg w ent body s"
  by (simp add: process_archive_def process_figs_http_get del: process_figs.simps
      cong: sum.case_cong list.case_cong option.case_cong)

lemma process_fig_relog:
  "process_fig cfg w idx pmid pmc fig (b, s\<lparr>net_log := l\<rparr>)
     = (case process_fig cfg w idx pmid pmc fig (b, s) of (e, b', s') \<Rightarrow> (e, b', s'\<lparr>net_log := l\<rparr>))"
  by (auto simp: process_fig_def Let_def split: option.splits sum.splits prod.splits)


lemma process_figs_relog:
  "process_figs cfg w idx pmid pmc figs (b, s\<lparr>net_log := l\<rparr>)
     = (case process_figs cfg w idx pmid pmc figs (b, s) of (e, b', s') \<Rightarrow> (e, b', s'\<lparr>net_log := l\<rparr>))"
proof (induction figs arbitrary: b s)
  case Nil
  then show ?case by simp
next
  case (Cons fig figs)
  obtain r1 b1 s1 where st: "process_fig cfg w idx pmid pmc fig (b, s) = (r1, b1, s1)"
    by (cases "process_fig cfg w idx pmid pmc fig (b, s)") auto
  show ?case
    by (cases r1) (simp_all add: process_fig_relog st Cons.IH)
qed

lemma process_archive_relog:
  "process_archive cfg w ent body (s\<lparr>net_log := l\<rparr>)
     = (case process_archive cfg w ent body s of (e, s') \<Rightarrow> (e, s'\<lparr>net_log := l\<rparr>))"
  by (simp add: process_archive_def Let_def process_figs_relog skip_def
      split: sum.splits list.splits option.splits prod.splits del: process_figs.simps)

lemma try_entry_fallback:
  assumes dual: "use_dual_base cfg"
    and p: "http_get w (primary_url cfg (e_path ent)) = Inl e1"
    and f: "http_get w (fallback_url cfg (e_path ent)) = Inr body"
  shows "try_entry cfg w ent s
         = (try_entry cfg (w\<lparr>http_get := (http_get w)(primary_url cfg (e_path ent) := Inr body)\<rparr>) ent s)
             \<lparr>net_log := net_log s @ [Get (primary_url cfg (e_path ent)),
                                      Get (fallback_url cfg (e_path ent))]\<rparr>"
proof -
  let ?w' = "w\<lparr>http_get := (http_get w)(primary_url cfg (e_path ent) := Inr body)\<rparr>"
  obtain e s' where r: "process_archive cfg w ent body s = (e, s')"
    by (cases "process_archive cfg w ent body s") auto
  have d: "download cfg w (e_path ent) (net_log s)
             = (Inr body, net_log s @ [Get (primary_url cfg (e_path ent)),
                                       Get (fallback_url cfg (e_path ent))])"
    using dual p f by (simp add: download_dual)
  have d': "download cfg ?w' (e_path ent) (net_log s)
             = (Inr body, net_log s @ [Get (primary_url cfg (e_path ent))])"
    using dual by (simp add: download_dual)
  show ?thesis
    using d d' r
    by (cases e) (simp_all add: try_entry_def entry_body_def process_archive_relog
        process_archive_http_get skip_def)
qed

lemma process_entry_fallback:
  assumes dual: "use_dual_base cfg"
    and p: "http_get w (primary_url cfg (e_path ent)) = Inl e1"
    and f: "http_get w (fallback_url cfg (e_path ent)) = Inr body"
  shows "process_entry cfg w s ent
         = (process_entry cfg (w\<lparr>http_get := (http_get w)(primary_url cfg (e_path ent) := Inr body)\<rparr>)
              s ent)
             \<lparr>net_log := net_log (process_entry cfg w s ent)\<rparr>"
proof (cases "max_filesize_mb cfg")
  case None
  then show ?thesis
    using try_entry_fallback[OF dual p f, of s]
    by (simp add: process_entry_def)
next
  case (Some mb)
  let ?s0 = "s\<lparr>net_log := net_log s @ [Head (primary_url cfg (e_path ent))]\<rparr>"
  show ?thesis
    using Some try_entry_fallback[OF dual p f, of ?s0]
    by (simp add: process_entry_def response_size_def Let_def skip_def
        split: head_result.splits)
qed

text \<open>
  Claim C6. With the dual-base fallback enabled the primary endpoint is requested first;
  when it answers, the fallback is not contacted; when it fails, whatever the failure,
  the fallback is requested for the same relative path. When both fail the download
  raises, and the entry is counted as skipped with nothing else changed. When the
  fallback answers, the entry ends in the state it would reach had the primary endpoint
  served the same archive, the log of requests apart.
\<close>

theorem dual_base_fallback:
  assumes "use_dual_base cfg"
  shows
    "(http_get w (primary_url cfg (e_path ent)) = Inr body \<longrightarrow>
        download cfg w (e_path ent) log
          = (Inr body, log @ [Get (primary_url cfg (e_path ent))]))
     \<and> (http_get w (primary_url cfg (e_path ent)) = Inl e1
          \<and> http_get w (fallback_url cfg (e_path ent)) = Inr body \<longrightarrow>
          download cfg w (e_path ent) log
            = (Inr body, log @ [Get (primary_url cfg (e_path ent)),
                                Get (fallback_url cfg (e_path ent))]))
     \<and> (http_get w (primary_url cfg (e_path ent)) = Inl e1
          \<and> http_get w (fallback_url cfg (e_path ent)) = Inl e2 \<longrightarrow>
          download cfg w (e_path ent) log
            = (Inl RuntimeError, log @ [Get (primary_url cfg (e_path ent)),
                                       Get (fallback_url cfg (e_path ent))])
          \<and> try_entry cfg w ent s
            = s\<lparr>n_skipped := n_skipped s + 1,
                net_log := net_log s @ [Get (primary_url cfg (e_path ent)),
                                        Get (fallback_url cfg (e_path ent))]\<rparr>)
     \<and> (http_get w (primary_url cfg (e_path ent)) = Inl e1
          \<and> http_get w (fallback_url cfg (e_path ent)) = Inr body \<longrightarrow>
          process_entry cfg w s ent
            = (process_entry cfg
                 (w\<lparr>http_get := (http_get w)(primary_url cfg (e_path ent) := Inr body)\<rparr>) s ent)
                \<lparr>net_log := net_log (process_entry cfg w s ent)\<rparr>)"
proof (intro conjI impI)
  assume "http_get w (primary_url cfg (e_path ent)) = Inr body"
  with assms show "download cfg w (e_path ent) log
          = (Inr body, log @ [Get (primary_url cfg (e_path ent))])"
    by (simp add: download_dual)
next
  assume "http_get w (primary_url cfg (e_path ent)) = Inl e1
          \<and> http_get w (fallback_url cfg (e_path ent)) = Inr body"
  with assms show "download cfg w (e_path ent) log
            = (Inr body, log @ [Get (primary_url cfg (e_path ent)),
                                Get (fallback_url cfg (e_path ent))])"
    by (simp add: download_dual)
next
  assume both: "http_get w (primary_url cfg (e_path ent)) = Inl e1
          \<and> http_get w (fallback_url cfg (e_path ent)) = Inl e2"
  with assms show "download cfg w (e_path ent) log
            = (Inl RuntimeError, log @ [Get (primary_url cfg (e_path ent)),
                                       Get (fallback_url cfg (e_path ent))])"
    by (simp add: download_dual)
  from assms both have "download cfg w (e_path ent) (net_log s)
            = (Inl RuntimeError, net_log s @ [Get (primary_url cfg (e_path ent)),
                                              Get (fallback_url cfg (e_path ent))])"
    by (simp add: download_dual)
  then show "try_entry cfg w ent s
            = s\<lparr>n_skipped := n_skipped s + 1,
                net_log := net_log s @ [Get (primary_url cfg (e_path ent)),
                                        Get (fallback_url cfg (e_path ent))]\<rparr>"
    by (simp add: try_entry_def entry_body_def skip_def)
next
  assume "http_get w (primary_url cfg (e_path ent)) = Inl e1
          \<and> http_get w (fallback_url cfg (e_path ent)) = Inr body"
  with assms show "process_entry cfg w s ent
            = (process_entry cfg
                 (w\<lparr>http_get := (http_get w)(primary_url cfg (e_path ent) := Inr body)\<rparr>) s ent)
                \<lparr>net_log := net_log (process_entry cfg w s ent)\<rparr>"
    using process_entry_fallback[of cfg w ent e1 body s] by blast
qed

theorem dual_base_fallback_witness:
  "use_dual_base cfg1
   \<and> http_get env_fallback (primary_url cfg1 (e_path entry1)) = Inl HTTPError
   \<and> http_get env_fallback (fallback_url cfg1 (e_path entry1)) = Inr (TarGz tar1)
   \<and> download cfg1 env_fallback (e_path entry1) []
       = (Inr (TarGz tar1), [Get (primary_url cfg1 (e_path entry1)),
                             Get (fallback_url cfg1 (e_path entry1))])
   \<and> http_get env_down (fallback_url cfg1 (e_path entry1)) = Inl HTTPError
   \<and> try_entry cfg1 env_down entry1 (initial_state cfg1 no_files)
       = (initial_state cfg1 no_files)
           \<lparr>n_skipped := 1,
            net_log := [Get (primary_url cfg1 (e_path entry1)),
                        Get (fallback_url cfg1 (e_path entry1))]\<rparr>
   \<and> n_skipped (process_entry cfg1 env_fallback (initial_state cfg1 no_files) entry1) = 0
   \<and> n_written (process_entry cfg1 env_fallback (initial_state cfg1 no_files) entry1) = 2"
proof -
  let ?p = "primary_url cfg1 (e_path entry1)" and ?f = "fallback_url cfg1 (e_path entry1)"
  let ?s0 = "initial_state cfg1 no_files"
  let ?w' = "env_fallback\<lparr>http_get := (http_get env_fallback)(?p := Inr (TarGz tar1))\<rparr>"
  have dual: "use_dual_base cfg1" and none: "max_filesize_mb cfg1 = None"
    by (simp_all add: cfg1_def)
  have p: "http_get env_fallback ?p = Inl HTTPError"
    and f: "http_get env_fallback ?f = Inr (TarGz tar1)"
    and dp: "http_get env_down ?p = Inl HTTPError"
    and df: "http_get env_down ?f = Inl HTTPError"
    by (simp_all add: env_fallback_def env_down_def env1_def entry1_urls PRIMARY_BASE_def
        FALLBACK_BASE_def)
  note fb = dual_base_fallback[OF dual, where w = env_fallback and ent = entry1
      and body = "TarGz tar1" and ?e1.0 = HTTPError and s = ?s0 and log = "[]"]
  note dn = dual_base_fallback[OF dual, where w = env_down and ent = entry1
      and ?e1.0 = HTTPError and ?e2.0 = HTTPError and s = ?s0]
  have a: "download cfg1 env_fallback (e_path entry1) [] = (Inr (TarGz tar1), [Get ?p, Get ?f])"
    using fb p f by simp
  have b: "try_entry cfg1 env_down entry1 ?s0
             = ?s0\<lparr>n_skipped := n_skipped ?s0 + 1, net_log := net_log ?s0 @ [Get ?p, Get ?f]\<rparr>"
    using dn dp df by blast
  have c: "process_entry cfg1 env_fallback ?s0 entry1
             = (process_entry cfg1 ?w' ?s0 entry1)
                 \<lparr>net_log := net_log (process_entry cfg1 env_fallback ?s0 entry1)\<rparr>"
    using fb p f by blast
  have "download cfg1 ?w' (e_path entry1) (net_log ?s0) = (Inr (TarGz tar1), net_log ?s0 @ [Get ?p])"
    using dual by (simp add: download_dual)
  moreover have "process_archive cfg1 ?w' entry1 (TarGz tar1)
                   (?s0\<lparr>net_log := net_log ?s0 @ [Get ?p]\<rparr>)
      = (None,
         (?s0\<lparr>net_log := net_log ?s0 @ [Get ?p]\<rparr>)
           \<lparr>images := (images (?s0\<lparr>net_log := net_log ?s0 @ [Get ?p]\<rparr>))
              (''out/images/PMC1/PMC1_fig-F3.jpg''
                 \<mapsto> \<lparr>mode = ''RGB'', pixels = ''png-bytes''\<rparr>,
               ''out/images/PMC1/PMC1_fig-F4.jpg''
                 \<mapsto> \<lparr>mode = ''RGB'', pixels = ''jpg-bytes''\<rparr>),
            jf := jf (?s0\<lparr>net_log := net_log ?s0 @ [Get ?p]\<rparr>) @ [line_F3, line_F4],
            existing_pairs :=
              insert (PyStr ''1001_F4'')
                (insert (PyStr ''1001_F3'')
                   (existing_pairs (?s0\<lparr>net_log := net_log ?s0 @ [Get ?p]\<rparr>))),
            n_written := n_written (?s0\<lparr>net_log := net_log ?s0 @ [Get ?p]\<rparr>) + 2\<rparr>)"
    by (rule process_archive_tar1_fresh)
      (simp_all add: env_fallback_def env1_def cfg1_def initial_state_def lines_of_def
        load_existing_pairs_def no_files_def article_nxml_def)
  ultimately have d: "n_skipped (process_entry cfg1 ?w' ?s0 entry1) = 0
      \<and> n_written (process_entry cfg1 ?w' ?s0 entry1) = 2"
    using none by (simp add: process_entry_def try_entry_def entry_body_def initial_state_def)
  have e: "n_skipped (process_entry cfg1 env_fallback ?s0 entry1) = 0
      \<and> n_written (process_entry cfg1 env_fallback ?s0 entry1) = 2"
    by (subst c, subst (2) c) (simp add: d)
  have z: "n_skipped ?s0 = 0" "net_log ?s0 = []"
    by (simp_all add: initial_state_def)
  show ?thesis
    using dual p f df a e by (simp add: b z)
qed

section \<open>What a caption loop changes\<close>

lemma process_fig_cases:
  assumes "process_fig cfg w idx pmid pmc fig (b, s) = (r, b', s')"
  obtains
    (passed) "r = None" "b' = b" "s' = s"
  | (raised) files where "r = Some ValueError" "b' = b" "s' = s\<lparr>images := files\<rparr>"
      "\<not> (resume cfg \<and> PyStr (fig_pair_id pmid fig) \<in> existing_pairs s)"
  | (written) img cap files where "r = None" "b' = True"
      "s' = s\<lparr>images := files,
             jf := jf s @ [Obj [(''image'', PyStr img), (''caption'', PyStr cap), (''pmid'', pmid),
                                (''pmcid'', pmc), (''pair_id'', PyStr (fig_pair_id pmid fig))]],
             existing_pairs := insert (PyStr (fig_pair_id pmid fig)) (existing_pairs s),
             n_written := n_written s + 1\<rparr>"
      "\<not> (resume cfg \<and> PyStr (fig_pair_id pmid fig) \<in> existing_pairs s)"
  using assms
  by (auto simp: process_fig_def fig_pair_id_def Let_def
      split: if_splits option.splits sum.splits prod.splits)

lemma written_by_Cons:
  "written_by pmid pmc figs l \<Longrightarrow> written_by pmid pmc (fig # figs) l"
  by (auto simp: written_by_def list_ex_iff split: jsonl_line.splits)

lemma written_by_new:
  "written_by pmid pmc (fig # figs)
     (Obj [(''image'', PyStr img), (''caption'', PyStr cap), (''pmid'', pmid),
           (''pmcid'', pmc), (''pair_id'', PyStr (fig_pair_id pmid fig))])"
  by (simp add: written_by_def)

lemma written_by_pair_id:
  "written_by pmid pmc figs l \<Longrightarrow> truthy (line_pair_id l) \<and> (\<exists>x. line_pair_id l = PyStr x)"
  by (auto simp: written_by_def line_pair_id_def dict_get_def fig_pair_id_def list_ex_iff
      split: jsonl_line.splits)

lemma process_figs_effect:
  assumes "process_figs cfg w idx pmid pmc figs (b, s) = (r, b', s')"
  shows "\<exists>new. jf s' = jf s @ new
           \<and> n_written s' = n_written s + length new
           \<and> n_skipped s' = n_skipped s
           \<and> (b' \<longleftrightarrow> b \<or> new \<noteq> [])
           \<and> existing_pairs s' = existing_pairs s \<union> set (map line_pair_id new)
           \<and> (\<forall>l \<in> set new. written_by pmid pmc figs l)
           \<and> (resume cfg \<longrightarrow> distinct (map line_pair_id new)
                              \<and> set (map line_pair_id new) \<inter> existing_pairs s = {})"
  using assms
proof (induction figs arbitrary: b s)
  case Nil
  then show ?case by simp
next
  case (Cons fig figs)
  obtain r1 b1 s1 where st: "process_fig cfg w idx pmid pmc fig (b, s) = (r1, b1, s1)"
    by (cases "process_fig cfg w idx pmid pmc fig (b, s)") auto
  from st show ?case
  proof (cases rule: process_fig_cases)
    case passed
    with Cons.prems st have "process_figs cfg w idx pmid pmc figs (b, s) = (r, b', s')"
      by simp
    from Cons.IH[OF this] show ?thesis
      by (auto intro: written_by_Cons)
  next
    case (raised files)
    with Cons.prems st have "s' = s\<lparr>images := files\<rparr>" "b' = b" by simp_all
    then show ?thesis by (intro exI[of _ "[]"]) simp
  next
    case (written img cap files)
    let ?l = "Obj [(''image'', PyStr img), (''caption'', PyStr cap), (''pmid'', pmid),
                   (''pmcid'', pmc), (''pair_id'', PyStr (fig_pair_id pmid fig))]"
    have pid: "line_pair_id ?l = PyStr (fig_pair_id pmid fig)"
      by (simp add: line_pair_id_def dict_get_def)
    from written Cons.prems st
    have "process_figs cfg w idx pmid pmc figs (True, s1) = (r, b', s')" by simp
    from Cons.IH[OF this] obtain new where new:
      "jf s' = jf s1 @ new" "n_written s' = n_written s1 + length new"
      "n_skipped s' = n_skipped s1" "b' \<longleftrightarrow> True \<or> new \<noteq> []"
      "existing_pairs s' = existing_pairs s1 \<union> set (map line_pair_id new)"
      "\<forall>l \<in> set new. written_by pmid pmc figs l"
      "resume cfg \<longrightarrow> distinct (map line_pair_id new)
                              \<and> set (map line_pair_id new) \<inter> existing_pairs s1 = {}"
      by blast
    have wbs: "\<forall>l \<in> set (?l # new). written_by pmid pmc (fig # figs) l"
      using new(6) written_by_new[of pmid pmc fig figs img cap] by (auto intro: written_by_Cons)
    have s1: "jf s1 = jf s @ [?l]" "n_written s1 = n_written s + 1" "n_skipped s1 = n_skipped s"
      "existing_pairs s1 = insert (PyStr (fig_pair_id pmid fig)) (existing_pairs s)"
      using written(3) by simp_all
    have c1: "jf s' = jf s @ ?l # new" using new(1) s1(1) by simp
    have c2: "n_written s' = n_written s + length (?l # new)" using new(2) s1(2) by simp
    have c3: "n_skipped s' = n_skipped s" using new(3) s1(3) by simp
    have c4: "b' \<longleftrightarrow> b \<or> ?l # new \<noteq> []" using new(4) by simp
    have c5: "existing_pairs s' = existing_pairs s \<union> set (map line_pair_id (?l # new))"
      using new(5) s1(4) pid by auto
    have c7: "resume cfg \<longrightarrow> distinct (map line_pair_id (?l # new))
                              \<and> set (map line_pair_id (?l # new)) \<inter> existing_pairs s = {}"
    proof
      assume rs: "resume cfg"
      with new(7) have d: "distinct (map line_pair_id new)"
        and e: "set (map line_pair_id new) \<inter> existing_pairs s1 = {}" by simp_all
      from e s1(4) have notin: "PyStr (fig_pair_id pmid fig) \<notin> set (map line_pair_id new)"
        and e': "set (map line_pair_id new) \<inter> existing_pairs s = {}" by auto
      from rs written(4) have fresh: "PyStr (fig_pair_id pmid fig) \<notin> existing_pairs s" by simp
      show "distinct (map line_pair_id (?l # new))
              \<and> set (map line_pair_id (?l # new)) \<inter> existing_pairs s = {}"
        using d notin e' fresh pid by auto
    qed
    show ?thesis
      using c1 c2 c3 c4 c5 wbs c7 by blast
  qed
qed

section \<open>What one entry changes\<close>

lemma process_archive_not_tar:
  "safe_open_tar body = Inl e \<Longrightarrow> process_archive cfg w ent body s = (Some e, s)"
  by (simp add: process_archive_def)

lemma process_archive_no_nxml:
  "safe_open_tar body = Inr tar \<Longrightarrow> members_by_ext tar [''.nxml''] = [] \<Longrightarrow>
   process_archive cfg w ent body s = (None, skip s)"
  by (simp add: process_archive_def)

lemma process_archive_parse_error:
  "safe_open_tar body = Inr tar \<Longrightarrow> members_by_ext tar [''.nxml''] = nxml # others \<Longrightarrow>
   parse_pubmed_caption w (extract_member_to_bytes nxml) = Inl e \<Longrightarrow>
   process_archive cfg w ent body s
     = (if e = XMLSyntaxError \<or> e = AttributeError then (None, skip s) else (Some e, s))"
  by (simp add: process_archive_def)

lemma process_archive_no_figs:
  "safe_open_tar body = Inr tar \<Longrightarrow> members_by_ext tar [''.nxml''] = nxml # others \<Longrightarrow>
   parse_pubmed_caption w (extract_member_to_bytes nxml) = Inr None
   \<or> parse_pubmed_caption w (extract_member_to_bytes nxml) = Inr (Some []) \<Longrightarrow>
   process_archive cfg w ent body s = (None, skip s)"
  by (auto simp add: process_archive_def)

lemma process_archive_figs:
  "safe_open_tar body = Inr tar \<Longrightarrow> members_by_ext tar [''.nxml''] = nxml # others \<Longrightarrow>
   parse_pubmed_caption w (extract_member_to_bytes nxml) = Inr (Some (fig0 # figs)) \<Longrightarrow>
   process_archive cfg w ent body s
     = (case process_figs cfg w (img_tar_members tar)
               (py_or (dict_get fig0 ''pmid'' (PyStr (e_pmid ent))) (PyStr (e_pmid ent)))
               (py_or (dict_get fig0 ''pmc'' (PyStr (e_pmcid ent))) (PyStr (e_pmcid ent)))
               (fig0 # figs) (False, s) of
          (Some e, wrote_any, s2) \<Rightarrow> (Some e, s2)
        | (None, wrote_any, s2) \<Rightarrow> (None, if \<not> wrote_any then skip s2 else s2))"
  by (simp add: process_archive_def Let_def del: process_figs.simps)


lemma process_archive_effect:
  assumes "process_archive cfg w ent body s = (r, s')"
  shows "\<exists>new. jf s' = jf s @ new
           \<and> n_written s' = n_written s + length new
           \<and> n_skipped s' = n_skipped s + (if r = None \<and> new = [] then 1 else 0)
           \<and> existing_pairs s' = existing_pairs s \<union> set (map line_pair_id new)
           \<and> list_all (\<lambda>l. truthy (line_pair_id l)) new
           \<and> (resume cfg \<longrightarrow> distinct (map line_pair_id new)
                              \<and> set (map line_pair_id new) \<inter> existing_pairs s = {})"
proof -
  have skipped: ?thesis if "r = None" "s' = skip s"
    using that by (intro exI[of _ "[]"]) (simp add: skip_def)
  have raised: ?thesis if "r \<noteq> None" "s' = s"
    using that by (intro exI[of _ "[]"]) simp
  show ?thesis
  proof (cases "safe_open_tar body")
    case (Inl e)
    with assms show ?thesis by (intro raised) (auto simp: process_archive_not_tar)
  next
    case (Inr tar)
    show ?thesis
    proof (cases "members_by_ext tar [''.nxml'']")
      case Nil
      with Inr assms show ?thesis by (intro skipped) (auto simp: process_archive_no_nxml)
    next
      case (Cons nxml others)
      note pre = Inr Cons
      show ?thesis
      proof (cases "parse_pubmed_caption w (extract_member_to_bytes nxml)")
        case (Inl e)
        show ?thesis
        proof (cases "e = XMLSyntaxError \<or> e = AttributeError")
          case True
          with assms show ?thesis
            by (intro skipped) (auto simp: process_archive_parse_error[OF pre Inl])
        next
          case False
          with assms show ?thesis
            by (intro raised) (auto simp: process_archive_parse_error[OF pre Inl])
        qed
      next
        case parsed: (Inr parsed_figs)
        show ?thesis
        proof (cases "parsed_figs = None \<or> parsed_figs = Some []")
          case True
          with parsed have "parse_pubmed_caption w (extract_member_to_bytes nxml) = Inr None
              \<or> parse_pubmed_caption w (extract_member_to_bytes nxml) = Inr (Some [])" by auto
          from process_archive_no_figs[OF pre this] assms show ?thesis
            by (intro skipped) auto
        next
          case False
          then obtain fig0 figs where figs: "parsed_figs = Some (fig0 # figs)"
            by (cases parsed_figs; cases "the parsed_figs") auto
          let ?pmid = "py_or (dict_get fig0 ''pmid'' (PyStr (e_pmid ent))) (PyStr (e_pmid ent))"
          let ?pmc = "py_or (dict_get fig0 ''pmc'' (PyStr (e_pmcid ent))) (PyStr (e_pmcid ent))"
          obtain r2 b2 s2 where loop:
            "process_figs cfg w (img_tar_members tar) ?pmid ?pmc (fig0 # figs) (False, s)
               = (r2, b2, s2)"
            by (metis prod_cases3)
          from process_figs_effect[OF loop] obtain new where new:
            "jf s2 = jf s @ new" "n_written s2 = n_written s + length new"
            "n_skipped s2 = n_skipped s" "b2 \<longleftrightarrow> new \<noteq> []"
            "existing_pairs s2 = existing_pairs s \<union> set (map line_pair_id new)"
            "\<forall>l \<in> set new. written_by ?pmid ?pmc (fig0 # figs) l"
            "resume cfg \<longrightarrow> distinct (map line_pair_id new)
                            \<and> set (map line_pair_id new) \<inter> existing_pairs s = {}"
            by auto
          have tr: "list_all (\<lambda>l. truthy (line_pair_id l)) new"
            using new(6) written_by_pair_id by (auto simp: list_all_iff)
          from parsed figs have "parse_pubmed_caption w (extract_member_to_bytes nxml)
              = Inr (Some (fig0 # figs))" by simp
          from process_archive_figs[OF pre this, of cfg ent s] assms loop
          have res: "r = r2" "s' = (if r2 = None \<and> \<not> b2 then skip s2 else s2)"
            by (cases r2; simp)+
          show ?thesis
            using new(1,2,3,4,5,7) tr res
            by (intro exI[of _ new]) (auto simp: skip_def)
        qed
      qed
    qed
  qed
qed

lemma try_entry_effect:
  "\<exists>new. jf (try_entry cfg w ent s) = jf s @ new
      \<and> n_written (try_entry cfg w ent s) = n_written s + length new
      \<and> n_skipped (try_entry cfg w ent s)
          = n_skipped s + (if new = [] \<or> fst (entry_body cfg w ent s) \<noteq> None then 1 else 0)
      \<and> existing_pairs (try_entry cfg w ent s) = existing_pairs s \<union> set (map line_pair_id new)
      \<and> list_all (\<lambda>l. truthy (line_pair_id l)) new
      \<and> (resume cfg \<longrightarrow> distinct (map line_pair_id new)
                         \<and> set (map line_pair_id new) \<inter> existing_pairs s = {})"
proof -
  obtain d l where dl: "download cfg w (e_path ent) (net_log s) = (d, l)"
    by (cases "download cfg w (e_path ent) (net_log s)") auto
  show ?thesis
  proof (cases d)
    case (Inl e)
    with dl have "entry_body cfg w ent s = (Some e, s\<lparr>net_log := l\<rparr>)"
      by (simp add: entry_body_def)
    then show ?thesis
      by (intro exI[of _ "[]"]) (simp add: try_entry_def skip_def)
  next
    case (Inr body)
    obtain r s' where pa: "process_archive cfg w ent body (s\<lparr>net_log := l\<rparr>) = (r, s')"
      by (cases "process_archive cfg w ent body (s\<lparr>net_log := l\<rparr>)") auto
    with dl Inr have eb: "entry_body cfg w ent s = (r, s')"
      by (simp add: entry_body_def)
    from process_archive_effect[OF pa] obtain new where new:
      "jf s' = jf s @ new" "n_written s' = n_written s + length new"
      "n_skipped s' = n_skipped s + (if r = None \<and> new = [] then 1 else 0)"
      "existing_pairs s' = existing_pairs s \<union> set (map line_pair_id new)"
      "list_all (\<lambda>l. truthy (line_pair_id l)) new"
      "resume cfg \<longrightarrow> distinct (map line_pair_id new)
                         \<and> set (map line_pair_id new) \<inter> existing_pairs s = {}"
      by auto
    have te: "try_entry cfg w ent s = (if r = None then s' else skip s')"
      using eb by (cases r) (simp_all add: try_entry_def)
    show ?thesis
      using new eb by (intro exI[of _ new]) (simp add: te skip_def)
  qed
qed

lemma process_entry_effect:
  "\<exists>new. jf (process_entry cfg w s ent) = jf s @ new
      \<and> n_written (process_entry cfg w s ent) = n_written s + length new
      \<and> (n_skipped (process_entry cfg w s ent) = n_skipped s
           \<or> n_skipped (process_entry cfg w s ent) = n_skipped s + 1)
      \<and> (new = [] \<longrightarrow> n_skipped (process_entry cfg w s ent) = n_skipped s + 1)
      \<and> existing_pairs (process_entry cfg w s ent) = existing_pairs s \<union> set (map line_pair_id new)
      \<and> list_all (\<lambda>l. truthy (line_pair_id l)) new
      \<and> (resume cfg \<longrightarrow> distinct (map line_pair_id new)
                         \<and> set (map line_pair_id new) \<inter> existing_pairs s = {})"
proof -
  have via_try: ?thesis if "process_entry cfg w s ent = try_entry cfg w ent (s\<lparr>net_log := l\<rparr>)" for l
    using try_entry_effect[of cfg w ent "s\<lparr>net_log := l\<rparr>"] unfolding that
    by (elim exE) (rule exI, auto)
  have skipped: ?thesis if "process_entry cfg w s ent = skip (s\<lparr>net_log := l\<rparr>)" for l
    unfolding that by (intro exI[of _ "[]"]) (simp add: skip_def)
  show ?thesis
  proof (cases "max_filesize_mb cfg")
    case None
    then have "process_entry cfg w s ent = try_entry cfg w ent (s\<lparr>net_log := net_log s\<rparr>)"
      by (simp add: process_entry_def)
    then show ?thesis by (rule via_try)
  next
    case (Some mb)
    obtain sz l where rs: "response_size w (primary_url cfg (e_path ent)) (net_log s) = (sz, l)"
      by (cases "response_size w (primary_url cfg (e_path ent)) (net_log s)") auto
    show ?thesis
    proof (cases "\<exists>n. sz = Some n \<and> n > mb * 1024 * 1024")
      case True
      with Some rs have "process_entry cfg w s ent = skip (s\<lparr>net_log := l\<rparr>)"
        by (auto simp: process_entry_def)
      then show ?thesis by (rule skipped)
    next
      case False
      with Some rs have "process_entry cfg w s ent = try_entry cfg w ent (s\<lparr>net_log := l\<rparr>)"
        by (cases sz) (auto simp: process_entry_def)
      then show ?thesis by (rule via_try)
    qed
  qed
qed

section \<open>What a run changes\<close>

lemma entries_effect:
  "\<exists>new. jf (foldl (process_entry cfg w) s entries) = jf s @ new
      \<and> n_written (foldl (process_entry cfg w) s entries) = n_written s + length new
      \<and> n_skipped s \<le> n_skipped (foldl (process_entry cfg w) s entries)
      \<and> n_skipped (foldl (process_entry cfg w) s entries) \<le> n_skipped s + length entries
      \<and> n_skipped s + length entries
          \<le> n_skipped (foldl (process_entry cfg w) s entries) + length new
      \<and> existing_pairs (foldl (process_entry cfg w) s entries)
          = existing_pairs s \<union> set (map line_pair_id new)
      \<and> list_all (\<lambda>l. truthy (line_pair_id l)) new
      \<and> (resume cfg \<longrightarrow> distinct (map line_pair_id new)
                         \<and> set (map line_pair_id new) \<inter> existing_pairs s = {})"
proof (induction entries arbitrary: s)
  case Nil
  show ?case by (intro exI[of _ "[]"]) simp
next
  case (Cons ent entries)
  let ?s1 = "process_entry cfg w s ent"
  let ?sN = "foldl (process_entry cfg w) ?s1 entries"
  from process_entry_effect[of cfg w s ent] obtain new1 where new1:
    "jf ?s1 = jf s @ new1" "n_written ?s1 = n_written s + length new1"
    "n_skipped ?s1 = n_skipped s \<or> n_skipped ?s1 = n_skipped s + 1"
    "new1 = [] \<longrightarrow> n_skipped ?s1 = n_skipped s + 1"
    "existing_pairs ?s1 = existing_pairs s \<union> set (map line_pair_id new1)"
    "list_all (\<lambda>l. truthy (line_pair_id l)) new1"
    "resume cfg \<longrightarrow> distinct (map line_pair_id new1)
                         \<and> set (map line_pair_id new1) \<inter> existing_pairs s = {}"
    by blast
  from Cons.IH[of ?s1] obtain new2 where new2:
    "jf ?sN = jf ?s1 @ new2" "n_written ?sN = n_written ?s1 + length new2"
    "n_skipped ?s1 \<le> n_skipped ?sN" "n_skipped ?sN \<le> n_skipped ?s1 + length entries"
    "n_skipped ?s1 + length entries \<le> n_skipped ?sN + length new2"
    "existing_pairs ?sN = existing_pairs ?s1 \<union> set (map line_pair_id new2)"
    "list_all (\<lambda>l. truthy (line_pair_id l)) new2"
    "resume cfg \<longrightarrow> distinct (map line_pair_id new2)
                         \<and> set (map line_pair_id new2) \<inter> existing_pairs ?s1 = {}"
    by blast
  have c1: "jf ?sN = jf s @ (new1 @ new2)" using new1(1) new2(1) by simp
  have c2: "n_written ?sN = n_written s + length (new1 @ new2)" using new1(2) new2(2) by simp
  have c3: "n_skipped s \<le> n_skipped ?sN" using new1(3) new2(3) by auto
  have c4: "n_skipped ?sN \<le> n_skipped s + length (ent # entries)" using new1(3) new2(4) by auto
  have len1: "n_skipped s + 1 \<le> n_skipped ?s1 + length new1"
    using new1(3,4) by (cases new1) auto
  have c5: "n_skipped s + length (ent # entries) \<le> n_skipped ?sN + length (new1 @ new2)"
    using len1 new2(5) by simp
  have c6: "existing_pairs ?sN = existing_pairs s \<union> set (map line_pair_id (new1 @ new2))"
    using new1(5) new2(6) by auto
  have c7: "list_all (\<lambda>l. truthy (line_pair_id l)) (new1 @ new2)" using new1(6) new2(7) by simp
  have c8: "resume cfg \<longrightarrow> distinct (map line_pair_id (new1 @ new2))
                         \<and> set (map line_pair_id (new1 @ new2)) \<inter> existing_pairs s = {}"
  proof
    assume rs: "resume cfg"
    from rs new1(7) have d1: "distinct (map line_pair_id new1)"
      and e1: "set (map line_pair_id new1) \<inter> existing_pairs s = {}" by simp_all
    from rs new2(8) have d2: "distinct (map line_pair_id new2)"
      and e2: "set (map line_pair_id new2) \<inter> existing_pairs ?s1 = {}" by simp_all
    from e2 new1(5) have e2a: "set (map line_pair_id new2) \<inter> existing_pairs s = {}"
      and e2b: "set (map line_pair_id new1) \<inter> set (map line_pair_id new2) = {}" by auto
    show "distinct (map line_pair_id (new1 @ new2))
            \<and> set (map line_pair_id (new1 @ new2)) \<inter> existing_pairs s = {}"
      using d1 d2 e1 e2a e2b by auto
  qed
  have fold: "foldl (process_entry cfg w) s (ent # entries) = ?sN" by simp
  show ?case
    unfolding fold using c1 c2 c3 c4 c5 c6 c7 c8 by blast
qed

lemma foldl_add_existing_pair:
  "foldl add_existing_pair acc lines = acc \<union> set (pair_ids lines)"
  by (induction lines arbitrary: acc)
    (auto simp: add_existing_pair_def pair_ids_def line_pair_id_def Let_def
      split: jsonl_line.splits)

lemma load_existing_pairs_resume:
  "load_existing_pairs True (jsonl_file fs) = set (pair_ids (lines_of fs))"
  by (simp add: load_existing_pairs_def lines_of_def foldl_add_existing_pair pair_ids_def
      split: option.splits)




section \<open>The example run, evaluated\<close>

lemma download_env1:
  "use_dual_base cfg \<Longrightarrow> file_extension cfg = ''.tar.gz'' \<Longrightarrow> http_get w = http_get env1 \<Longrightarrow>
   download cfg w (e_path entry1) log = (Inr (TarGz tar1), log @ [Get (PRIMARY_BASE @ e_path entry1)])"
  by (simp add: download_dual primary_url_def entry1_def endswith_def env1_def)

text \<open>The run of the one-row manifest in the world \<open>env1\<close>, from any files.\<close>

lemma run_manifest1_fresh:
  assumes "use_dual_base cfg" "file_extension cfg = ''.tar.gz''" "max_filesize_mb cfg = None"
    "subset_size cfg = None" "images_out_dir cfg = Path ''out/images''"
    and "resume cfg \<longrightarrow> PyStr ''1001_F3'' \<notin> set (pair_ids (lines_of fs))
                        \<and> PyStr ''1001_F4'' \<notin> set (pair_ids (lines_of fs))"
  shows "build_pubmed_image_caption_dataset_streaming cfg env1 manifest1 fs
    = \<lparr>existing_pairs = insert (PyStr ''1001_F4'') (insert (PyStr ''1001_F3'')
                           (load_existing_pairs (resume cfg) (jsonl_file fs))),
       jf = lines_of fs @ [line_F3, line_F4],
       images = (image_files fs)
           (''out/images/PMC1/PMC1_fig-F3.jpg'' \<mapsto> \<lparr>mode = ''RGB'', pixels = ''png-bytes''\<rparr>,
            ''out/images/PMC1/PMC1_fig-F4.jpg'' \<mapsto> \<lparr>mode = ''RGB'', pixels = ''jpg-bytes''\<rparr>),
       n_written = 2, n_skipped = 0,
       net_log = [Get (PRIMARY_BASE @ e_path entry1)]\<rparr>"
proof -
  let ?s1 = "(initial_state cfg fs)\<lparr>net_log := [Get (PRIMARY_BASE @ e_path entry1)]\<rparr>"
  have fresh: "resume cfg \<longrightarrow> PyStr ''1001_F3'' \<notin> existing_pairs ?s1
                          \<and> PyStr ''1001_F4'' \<notin> existing_pairs ?s1"
    using assms(6) by (auto simp: initial_state_def load_existing_pairs_resume)
  have "process_archive cfg env1 entry1 (TarGz tar1) ?s1
   = (None,
      ?s1\<lparr>images := (images ?s1)
           (''out/images/PMC1/PMC1_fig-F3.jpg'' \<mapsto> \<lparr>mode = ''RGB'', pixels = ''png-bytes''\<rparr>,
            ''out/images/PMC1/PMC1_fig-F4.jpg'' \<mapsto> \<lparr>mode = ''RGB'', pixels = ''jpg-bytes''\<rparr>),
        jf := jf ?s1 @ [line_F3, line_F4],
        existing_pairs := insert (PyStr ''1001_F4'') (insert (PyStr ''1001_F3'') (existing_pairs ?s1)),
        n_written := n_written ?s1 + 2\<rparr>)"
    by (rule process_archive_tar1_fresh[OF _ _ _ assms(5) fresh])
      (simp_all add: env1_def article_nxml_def)
  then show ?thesis
    using assms(1-4)
    by (simp add: build_pubmed_image_caption_dataset_streaming_def read_manifest1
        process_entry_def try_entry_def entry_body_def download_env1 initial_state_def)
qed



section \<open>Uniqueness of pair ids\<close>








lemma cfg1_fields:
  "use_dual_base cfg1" "file_extension cfg1 = ''.tar.gz''" "max_filesize_mb cfg1 = None"
  "subset_size cfg1 = None" "resume cfg1" "images_out_dir cfg1 = Path ''out/images''"
  by (simp_all add: cfg1_def)






section \<open>The counters\<close>

lemma try_entry_count:
  "n_skipped (try_entry cfg w ent s)
     = n_skipped s + (if jf (try_entry cfg w ent s) = jf s \<or> fst (entry_body cfg w ent s) \<noteq> None
                      then 1 else 0)"
  using try_entry_effect[of cfg w ent s] by auto

lemma process_entry_count:
  "\<exists>new. jf (process_entry cfg w s ent) = jf s @ new
      \<and> n_written (process_entry cfg w s ent) = n_written s + length new
      \<and> (n_skipped (process_entry cfg w s ent) = n_skipped s
           \<or> n_skipped (process_entry cfg w s ent) = n_skipped s + 1)
      \<and> (new = [] \<longrightarrow> n_skipped (process_entry cfg w s ent) = n_skipped s + 1)"
  using process_entry_effect[of cfg w s ent] by blast

lemma run_count:
  "n_written (build_pubmed_image_caption_dataset_streaming cfg w file_list fs)
     + length (lines_of fs)
     = length (jf (build_pubmed_image_caption_dataset_streaming cfg w file_list fs))
   \<and> n_skipped (build_pubmed_image_caption_dataset_streaming cfg w file_list fs)
       \<le> length (read_entries (subset_size cfg) file_list)
   \<and> length (read_entries (subset_size cfg) file_list)
       \<le> n_skipped (build_pubmed_image_caption_dataset_streaming cfg w file_list fs)
         + n_written (build_pubmed_image_caption_dataset_streaming cfg w file_list fs)"
  using entries_effect[of cfg w "initial_state cfg fs" "read_entries (subset_size cfg) file_list"]
  by (auto simp: build_pubmed_image_caption_dataset_streaming_def initial_state_def)

lemma run_manifest1_cfg1:
  "build_pubmed_image_caption_dataset_streaming cfg1 env1 manifest1 no_files
    = \<lparr>existing_pairs = {PyStr ''1001_F4'', PyStr ''1001_F3''},
       jf = [line_F3, line_F4],
       images = [''out/images/PMC1/PMC1_fig-F3.jpg'' \<mapsto> \<lparr>mode = ''RGB'', pixels = ''png-bytes''\<rparr>,
                 ''out/images/PMC1/PMC1_fig-F4.jpg'' \<mapsto> \<lparr>mode = ''RGB'', pixels = ''jpg-bytes''\<rparr>],
       n_written = 2, n_skipped = 0,
       net_log = [Get (PRIMARY_BASE @ e_path entry1)]\<rparr>"
proof -
  have "build_pubmed_image_caption_dataset_streaming cfg1 env1 manifest1 no_files
    = \<lparr>existing_pairs = insert (PyStr ''1001_F4'') (insert (PyStr ''1001_F3'')
                           (load_existing_pairs (resume cfg1) (jsonl_file no_files))),
       jf = lines_of no_files @ [line_F3, line_F4],
       images = (image_files no_files)
           (''out/images/PMC1/PMC1_fig-F3.jpg'' \<mapsto> \<lparr>mode = ''RGB'', pixels = ''png-bytes''\<rparr>,
            ''out/images/PMC1/PMC1_fig-F4.jpg'' \<mapsto> \<lparr>mode = ''RGB'', pixels = ''jpg-bytes''\<rparr>),
       n_written = 2, n_skipped = 0,
       net_log = [Get (PRIMARY_BASE @ e_path entry1)]\<rparr>"
    by (rule run_manifest1_fresh) (simp_all add: cfg1_fields no_files_def lines_of_def pair_ids_def)
  then show ?thesis
    by (simp add: no_files_def lines_of_def load_existing_pairs_def)
qed

lemma process_entry_down:
  "process_entry cfg1 env_down (initial_state cfg1 no_files) entry1
     = (initial_state cfg1 no_files)
         \<lparr>n_skipped := 1,
          net_log := [Get (primary_url cfg1 (e_path entry1)),
                      Get (fallback_url cfg1 (e_path entry1))]\<rparr>"
  by (simp add: process_entry_def cfg1_fields try_entry_def entry_body_def download_dual
      env_down_def skip_def initial_state_def)

text \<open>
  Claim C2, amended: \<^verbatim>\<open>n_written\<close> counts the records written, one for each caption
  written, not the entries. An entry adds to \<^verbatim>\<open>n_skipped\<close> at most once, and exactly
  once when it wrote no record; the \<^verbatim>\<open>try\<close> statement adds one exactly when the entry
  wrote no record or was left by an exception. Over a run, \<^verbatim>\<open>n_written\<close> is the number
  of lines appended to the output file, and the number of attempted entries lies between
  \<^verbatim>\<open>n_skipped\<close> and \<^verbatim>\<open>n_skipped + n_written\<close>.
\<close>

theorem counters_account:
  "(\<exists>new. jf (process_entry cfg w s ent) = jf s @ new
        \<and> n_written (process_entry cfg w s ent) = n_written s + length new
        \<and> (n_skipped (process_entry cfg w s ent) = n_skipped s
             \<or> n_skipped (process_entry cfg w s ent) = n_skipped s + 1)
        \<and> (new = [] \<longrightarrow> n_skipped (process_entry cfg w s ent) = n_skipped s + 1))
   \<and> n_skipped (try_entry cfg w ent s)
       = n_skipped s
         + (if jf (try_entry cfg w ent s) = jf s \<or> fst (entry_body cfg w ent s) \<noteq> None
            then 1 else 0)
   \<and> n_written (build_pubmed_image_caption_dataset_streaming cfg w file_list fs)
       + length (lines_of fs)
       = length (jf (build_pubmed_image_caption_dataset_streaming cfg w file_list fs))
   \<and> n_skipped (build_pubmed_image_caption_dataset_streaming cfg w file_list fs)
       \<le> length (read_entries (subset_size cfg) file_list)
   \<and> length (read_entries (subset_size cfg) file_list)
       \<le> n_skipped (build_pubmed_image_caption_dataset_streaming cfg w file_list fs)
         + n_written (build_pubmed_image_caption_dataset_streaming cfg w file_list fs)"
  using process_entry_count[of cfg w s ent] try_entry_count[of cfg w ent s]
    run_count[of cfg w file_list fs]
  by blast

theorem counters_account_witness:
  "jf (process_entry cfg1 env_down (initial_state cfg1 no_files) entry1)
     = jf (initial_state cfg1 no_files)
   \<and> n_skipped (process_entry cfg1 env_down (initial_state cfg1 no_files) entry1)
     = n_skipped (initial_state cfg1 no_files) + 1
   \<and> n_skipped (build_pubmed_image_caption_dataset_streaming cfg1 env1 manifest1 no_files)
       \<le> length (read_entries (subset_size cfg1) manifest1)
   \<and> length (read_entries (subset_size cfg1) manifest1)
       \<le> n_skipped (build_pubmed_image_caption_dataset_streaming cfg1 env1 manifest1 no_files)
         + n_written (build_pubmed_image_caption_dataset_streaming cfg1 env1 manifest1 no_files)"
proof -
  let ?s0 = "initial_state cfg1 no_files"
  let ?s1 = "process_entry cfg1 env_down ?s0 entry1"
  note inst = counters_account[where cfg = cfg1 and w = env_down and s = ?s0 and ent = entry1]
  note run = counters_account[where cfg = cfg1 and w = env1 and file_list = manifest1
      and fs = no_files]
  have same: "jf ?s1 = jf ?s0"
    by (simp add: process_entry_down)
  from inst obtain new where new: "jf ?s1 = jf ?s0 @ new"
    "new = [] \<longrightarrow> n_skipped ?s1 = n_skipped ?s0 + 1"
    by blast
  from new(1) same have "new = []" by simp
  with new(2) have "n_skipped ?s1 = n_skipped ?s0 + 1" by simp
  with same run show ?thesis by blast
qed

theorem counters_account_counterexample:
  "n_written (build_pubmed_image_caption_dataset_streaming cfg1 env1 manifest1 no_files) = 2
   \<and> n_skipped (build_pubmed_image_caption_dataset_streaming cfg1 env1 manifest1 no_files) = 0
   \<and> length (read_entries (subset_size cfg1) manifest1) = 1
   \<and> n_written (build_pubmed_image_caption_dataset_streaming cfg1 env1 manifest1 no_files)
       + n_skipped (build_pubmed_image_caption_dataset_streaming cfg1 env1 manifest1 no_files)
     \<noteq> length (read_entries (subset_size cfg1) manifest1)"
  by (simp add: run_manifest1_cfg1 cfg1_fields read_manifest1)

section \<open>The identifiers of an entry's records\<close>

lemma py_or_get:
  "py_or (dict_get fig key (PyStr dflt)) (PyStr dflt)
     = (case map_of fig key of
          Some (PyStr v) \<Rightarrow> if v = [] then PyStr dflt else PyStr v
        | _ \<Rightarrow> PyStr dflt)"
  by (simp add: py_or_def dict_get_def split: option.splits pyval.splits)

lemma process_archive_lines:
  assumes "safe_open_tar body = Inr tar"
    and "members_by_ext tar [''.nxml''] = nxml # others"
    and "parse_pubmed_caption w (extract_member_to_bytes nxml) = Inr (Some (fig0 # figs))"
  shows "\<exists>new. jf (snd (process_archive cfg w ent body s)) = jf s @ new
           \<and> list_all (written_by
                 (py_or (dict_get fig0 ''pmid'' (PyStr (e_pmid ent))) (PyStr (e_pmid ent)))
                 (py_or (dict_get fig0 ''pmc'' (PyStr (e_pmcid ent))) (PyStr (e_pmcid ent)))
                 (fig0 # figs)) new"
proof -
  let ?pmid = "py_or (dict_get fig0 ''pmid'' (PyStr (e_pmid ent))) (PyStr (e_pmid ent))"
  let ?pmc = "py_or (dict_get fig0 ''pmc'' (PyStr (e_pmcid ent))) (PyStr (e_pmcid ent))"
  obtain r2 b2 s2 where loop:
    "process_figs cfg w (img_tar_members tar) ?pmid ?pmc (fig0 # figs) (False, s) = (r2, b2, s2)"
    by (metis prod_cases3)
  from process_figs_effect[OF loop] obtain new where new:
    "jf s2 = jf s @ new" "\<forall>l \<in> set new. written_by ?pmid ?pmc (fig0 # figs) l"
    by auto
  from process_archive_figs[OF assms, of cfg ent s] loop
  have "jf (snd (process_archive cfg w ent body s)) = jf s2"
    by (cases r2) (simp_all add: skip_def)
  with new show ?thesis
    by (intro exI[of _ new]) (simp add: list_all_iff)
qed

text \<open>
  Claim C10. When the archive of an entry opens, has a markup member and its captions
  parse to a non-empty list, every line appended for the entry carries, as \<^verbatim>\<open>pmid\<close> and
  \<^verbatim>\<open>pmcid\<close>, the \<^verbatim>\<open>pmid\<close> and \<^verbatim>\<open>pmc\<close> of the first caption record, or the manifest's
  values where the first record has no such field or an empty one, and its \<^verbatim>\<open>pair_id\<close>
  is built from that \<^verbatim>\<open>pmid\<close> and the \<^verbatim>\<open>fig_id\<close> of one of the captions. The fields of
  the later captions play no part.
\<close>

theorem first_record_ids:
  assumes "safe_open_tar body = Inr tar"
    and "members_by_ext tar [''.nxml''] = nxml # others"
    and "parse_pubmed_caption w (extract_member_to_bytes nxml) = Inr (Some (fig0 # figs))"
  shows "(\<exists>new. jf (snd (process_archive cfg w ent body s)) = jf s @ new
            \<and> list_all (written_by
                  (py_or (dict_get fig0 ''pmid'' (PyStr (e_pmid ent))) (PyStr (e_pmid ent)))
                  (py_or (dict_get fig0 ''pmc'' (PyStr (e_pmcid ent))) (PyStr (e_pmcid ent)))
                  (fig0 # figs)) new)
         \<and> py_or (dict_get fig0 ''pmid'' (PyStr (e_pmid ent))) (PyStr (e_pmid ent))
           = (case map_of fig0 ''pmid'' of
                Some (PyStr v) \<Rightarrow> if v = [] then PyStr (e_pmid ent) else PyStr v
              | _ \<Rightarrow> PyStr (e_pmid ent))
         \<and> py_or (dict_get fig0 ''pmc'' (PyStr (e_pmcid ent))) (PyStr (e_pmcid ent))
           = (case map_of fig0 ''pmc'' of
                Some (PyStr v) \<Rightarrow> if v = [] then PyStr (e_pmcid ent) else PyStr v
              | _ \<Rightarrow> PyStr (e_pmcid ent))"
  using process_archive_lines[OF assms, of cfg ent s] py_or_get[of fig0 "''pmid''" "e_pmid ent"]
    py_or_get[of fig0 "''pmc''" "e_pmcid ent"]
  by blast

lemma process_archive_mixed:
  "jf (snd (process_archive cfg1 env_mixed entry1 (TarGz tar1) (initial_state cfg1 no_files)))
     = [line_F3, line_G]"
  by (simp add: process_archive_def safe_open_tar_def members_by_ext_tar1 process_fig_def
      img_tar_members_tar1 matcher_eval fig_F3_def fig_G_def line_F3_def line_G_def py_or_def
      entry1_def env_mixed_def article_nxml_def example_eval path_eval)

theorem first_record_ids_witness:
  "safe_open_tar (TarGz tar1) = Inr tar1
   \<and> members_by_ext tar1 [''.nxml''] = article_nxml # []
   \<and> parse_pubmed_caption env_mixed (extract_member_to_bytes article_nxml)
       = Inr (Some (fig_F3 # [fig_G]))
   \<and> map_of fig_G ''pmid'' = Some (PyStr ''9999'')
   \<and> map_of fig_G ''pmc'' = Some (PyStr ''PMC9'')
   \<and> jf (snd (process_archive cfg1 env_mixed entry1 (TarGz tar1) (initial_state cfg1 no_files)))
       = [line_F3, line_G]
   \<and> list_all (written_by (PyStr ''1001'') (PyStr ''PMC1'') [fig_F3, fig_G]) [line_F3, line_G]
   \<and> py_or (dict_get fig_bare ''pmid'' (PyStr (e_pmid entry1))) (PyStr (e_pmid entry1))
       = PyStr ''1001''
   \<and> py_or (dict_get fig_bare ''pmc'' (PyStr (e_pmcid entry1))) (PyStr (e_pmcid entry1))
       = PyStr ''PMC1''"
proof -
  let ?s0 = "initial_state cfg1 no_files"
  let ?bare = "env1\<lparr>parse_pubmed_caption := (\<lambda>b. Inr (Some [fig_bare]))\<rparr>"
  have tar: "safe_open_tar (TarGz tar1) = Inr tar1"
    by (simp add: safe_open_tar_def)
  have nxml: "members_by_ext tar1 [''.nxml''] = article_nxml # []"
    by (simp add: members_by_ext_tar1)
  have parsed: "parse_pubmed_caption env_mixed (extract_member_to_bytes article_nxml)
                  = Inr (Some (fig_F3 # [fig_G]))"
    and bare: "parse_pubmed_caption ?bare (extract_member_to_bytes article_nxml)
                  = Inr (Some (fig_bare # []))"
    by (simp_all add: env_mixed_def)
  have later: "map_of fig_G ''pmid'' = Some (PyStr ''9999'')"
    "map_of fig_G ''pmc'' = Some (PyStr ''PMC9'')"
    by (simp_all add: fig_G_def)
  have first: "py_or (dict_get fig_F3 ''pmid'' (PyStr (e_pmid entry1))) (PyStr (e_pmid entry1))
                 = PyStr ''1001''"
    "py_or (dict_get fig_F3 ''pmc'' (PyStr (e_pmcid entry1))) (PyStr (e_pmcid entry1))
                 = PyStr ''PMC1''"
    by (simp_all add: py_or_def dict_get_def fig_F3_def)
  from first_record_ids[OF tar nxml parsed, of cfg1 entry1 ?s0]
  obtain new where new:
    "jf (snd (process_archive cfg1 env_mixed entry1 (TarGz tar1) ?s0)) = jf ?s0 @ new"
    "list_all (written_by (PyStr ''1001'') (PyStr ''PMC1'') [fig_F3, fig_G]) new"
    unfolding first by blast
  have "jf ?s0 = []"
    by (simp add: initial_state_def lines_of_def no_files_def)
  with new(1) have "new = [line_F3, line_G]"
    by (simp add: process_archive_mixed)
  with new(2) have a: "list_all (written_by (PyStr ''1001'') (PyStr ''PMC1'') [fig_F3, fig_G])
                         [line_F3, line_G]" by simp
  from first_record_ids[OF tar nxml bare, of cfg1 entry1 ?s0]
  have b: "py_or (dict_get fig_bare ''pmid'' (PyStr (e_pmid entry1))) (PyStr (e_pmid entry1))
             = PyStr ''1001''"
    "py_or (dict_get fig_bare ''pmc'' (PyStr (e_pmcid entry1))) (PyStr (e_pmcid entry1))
             = PyStr ''PMC1''"
    by (simp_all add: fig_bare_def entry1_def)
  show ?thesis
    using tar nxml parsed later a b process_archive_mixed by blast
qed

section \<open>The image normalizer\<close>

lemma rfind_absent: "c \<notin> set xs \<Longrightarrow> rfind c xs = - 1"
  by (induction xs) (auto simp: Let_def)

lemma rfind_last: "c \<notin> set ys \<Longrightarrow> rfind c (xs @ c # ys) = int (length xs)"
  by (induction xs) (auto simp: Let_def rfind_absent)

lemma suffix_jpg:
  assumes "name p = z @ ''.jpg''" "z \<noteq> []"
  shows "suffix p = ''.jpg''"
proof -
  have "rfind CHR ''.'' (z @ CHR ''.'' # ''jpg'') = int (length z)"
    by (rule rfind_last) simp
  with assms show ?thesis by (simp add: suffix_def Let_def)
qed

lemma suffix_bare_jpg: "name p = ''.jpg'' \<Longrightarrow> suffix p = []"
  by (simp add: suffix_def Let_def)

lemma name_with_parts: "name (p\<lparr>parts := xs @ [n]\<rparr>) = n"
  by (simp add: name_def)

lemma suffix_is_drop:
  "suffix p \<noteq> [] \<Longrightarrow> \<exists>i. 0 < i \<and> i < length (name p) \<and> suffix p = drop i (name p)"
  by (auto simp: suffix_def Let_def split: if_splits intro!: exI[of _ "nat (rfind CHR ''.'' (name p))"])

lemma with_suffix_jpg:
  assumes "with_suffix p ''.jpg'' = Some p'"
  shows "suffix p' = ''.jpg''"
proof -
  from assms have ne: "name p \<noteq> []"
    by (auto simp: with_suffix_def Let_def split: if_splits)
  show ?thesis
  proof (cases "suffix p = []")
    case True
    with assms ne have "name p' = name p @ ''.jpg''"
      by (auto simp: with_suffix_def Let_def name_with_parts)
    with ne show ?thesis using suffix_jpg[of p' "name p"] by simp
  next
    case False
    from suffix_is_drop[OF False] obtain i where i: "0 < i" "i < length (name p)"
      "suffix p = drop i (name p)" by blast
    then have "take (length (name p) - length (suffix p)) (name p) = take i (name p)"
      by simp
    with assms ne False have n': "name p' = take i (name p) @ ''.jpg''"
      by (auto simp: with_suffix_def Let_def name_with_parts)
    from i have "take i (name p) \<noteq> []" by auto
    with n' show ?thesis using suffix_jpg[of p' "take i (name p)"] by simp
  qed
qed

lemma lower_jpg: "lower ''.jpg'' = ''.jpg''"
  by (simp add: lower_def lower_char_def)

end
